theory Spec2Isabelle
  imports Main "HOL-Library.Char_ord" "HOL-Library.List_Lexorder" "HOL-Library.AList"
begin

section \<open>JavaScript and SQLite values\<close>

text \<open>
  SQLite TEXT columns and JavaScript strings are byte strings (\<open>string\<close>); a nullable
  column or a possibly \<open>undefined\<close> property is an \<open>option\<close>. SQLite compares TEXT
  values with the BINARY collation, byte by byte: that is the lexicographic order on
  \<open>string\<close> with characters ordered by their code, written \<open><\<close> below.
  INTEGER columns and JavaScript integers are \<open>int\<close>; a JavaScript number that may be
  \<open>NaN\<close> is an \<open>int option\<close> with \<open>None\<close> for \<open>NaN\<close>.
\<close>

datatype json = JString string | JNumber int | JNull | JObject "(string \<times> json) list"

datatype response = Response (status_code: nat) (body: json)

text \<open>\<open>x || null\<close> on an optional string: the empty string is falsy.\<close>

definition or_null :: "string option \<Rightarrow> string option" where
  "or_null x = (case x of None \<Rightarrow> None | Some s \<Rightarrow> if s = [] then None else Some s)"

text \<open>\<open>x || null\<close> on an optional number: zero is falsy.\<close>

definition or_null_num :: "int option \<Rightarrow> int option" where
  "or_null_num x = (case x of None \<Rightarrow> None | Some n \<Rightarrow> if n = 0 then None else Some n)"

definition or_default :: "string option \<Rightarrow> string \<Rightarrow> string" where
  "or_default x d = (case or_null x of None \<Rightarrow> d | Some s \<Rightarrow> s)"

definition or_zero :: "int option \<Rightarrow> int" where
  "or_zero x = (case x of None \<Rightarrow> 0 | Some n \<Rightarrow> n)"

subsection \<open>Decimal rendering and \<open>parseInt\<close>\<close>

definition digit_char :: "nat \<Rightarrow> char" where
  "digit_char d = char_of (48 + d)"

definition is_digit :: "char \<Rightarrow> bool" where
  "is_digit c = (48 \<le> (of_char c :: nat) \<and> (of_char c :: nat) \<le> 57)"

definition digit_val :: "char \<Rightarrow> nat" where
  "digit_val c = of_char c - 48"

function string_of_nat :: "nat \<Rightarrow> string" where
  "string_of_nat n =
     (if n < 10 then [digit_char n] else string_of_nat (n div 10) @ [digit_char (n mod 10)])"
  by pat_completeness auto
termination
  by (relation "measure id") auto

declare string_of_nat.simps [simp del]

text \<open>
  The template literal \<open>${n}\<close> of an integer \<open>n\<close> (of magnitude below \<open>1e21\<close>, where
  JavaScript turns to the exponent notation; an INTEGER of SQLite has 64 bits).
\<close>

definition string_of_int :: "int \<Rightarrow> string" where
  "string_of_int i = (if i < 0 then CHR ''-'' # string_of_nat (nat (- i)) else string_of_nat (nat i))"

definition is_space :: "char \<Rightarrow> bool" where
  "is_space c = (c = CHR '' '' \<or> c = CHR 0x09 \<or> c = CHR 0x0A \<or> c = CHR 0x0B
                 \<or> c = CHR 0x0C \<or> c = CHR 0x0D)"

definition is_hex_digit :: "char \<Rightarrow> bool" where
  "is_hex_digit c = (is_digit c \<or> (65 \<le> (of_char c :: nat) \<and> (of_char c :: nat) \<le> 70)
                      \<or> (97 \<le> (of_char c :: nat) \<and> (of_char c :: nat) \<le> 102))"

definition hex_val :: "char \<Rightarrow> nat" where
  "hex_val c = (if is_digit c then of_char c - 48
                else if (of_char c :: nat) \<le> 70 then of_char c - 55 else of_char c - 87)"

definition digits_value :: "string \<Rightarrow> int" where
  "digits_value ds = foldl (\<lambda>acc c. acc * 10 + int (digit_val c)) 0 ds"

definition hex_value :: "string \<Rightarrow> int" where
  "hex_value ds = foldl (\<lambda>acc c. acc * 16 + int (hex_val c)) 0 ds"

text \<open>
  A JavaScript number is a double: an integer of magnitude up to \<open>2 ^ 53\<close> is held
  exactly, a larger one is rounded to the nearest integer with 53 significant bits, to
  the even one of two that are equally near. (Beyond the largest double, about
  \<open>1.8e308\<close>, JavaScript has \<open>Infinity\<close>; here the rounding goes on, and the result
  compares with a 64-bit id and with the length of an array as \<open>Infinity\<close> does.)
\<close>

function bit_length :: "int \<Rightarrow> nat" where
  "bit_length n = (if n \<le> 0 then 0 else Suc (bit_length (n div 2)))"
  by pat_completeness auto
termination
  by (relation "measure nat") auto

declare bit_length.simps [simp del]

definition to_double :: "int \<Rightarrow> int" where
  "to_double n =
     (if \<bar>n\<bar> < 2 ^ 53 then n
      else let e = bit_length \<bar>n\<bar> - 53;
               q = \<bar>n\<bar> div 2 ^ e;
               r = \<bar>n\<bar> mod 2 ^ e;
               q' = (if 2 ^ e < 2 * r \<or> (2 * r = 2 ^ e \<and> odd q) then q + 1 else q)
           in sgn n * (q' * 2 ^ e))"

text \<open>
  \<open>parseInt(s)\<close> with no radix: leading white space is skipped (the ASCII white space
  here), an optional sign is read, a prefix \<open>0x\<close> or \<open>0X\<close> selects radix 16, then the
  longest prefix of digits of the radix is read; no digit gives \<open>NaN\<close>, and the integer
  read is returned as a number.
\<close>

definition parseInt :: "string \<Rightarrow> int option" where
  "parseInt s =
     (let t = dropWhile is_space s;
          (neg, u) = (case t of
                        c # r \<Rightarrow> if c = CHR ''-'' then (True, r)
                                 else if c = CHR ''+'' then (False, r) else (False, t)
                      | [] \<Rightarrow> (False, t));
          hex = (take 2 u = ''0x'' \<or> take 2 u = ''0X'');
          ds = (if hex then takeWhile is_hex_digit (drop 2 u) else takeWhile is_digit u);
          v = (if hex then hex_value ds else digits_value ds)
      in if ds = [] then None else Some (to_double (if neg then - v else v)))"

section \<open>The store (bot/database.js)\<close>

text \<open>
  The rows of the tables, with the columns the handlers read and write (the columns
  \<open>active\<close> and \<open>updated_at\<close> that the migrations add are the subject of the migration
  model further down). The store is node-sqlite3: a statement is queued and run in the
  order of the calls, its result goes to the callback of the call, and \<open>run\<close> and \<open>get\<close>
  of a prepared statement return the statement object itself. A statement on the store
  does not fail. No INSERT of the program gives an \<open>id\<close>: the ids of the store are
  AUTOINCREMENT ids, counted from 1, and a number read from a row is the integer of the
  row.
\<close>

record task =
  t_id :: int
  t_content :: string
  t_channel_id :: string
  t_user_id :: string
  t_time :: string
  t_days :: "string option"
  t_created_at :: string

record reminder =
  r_id :: int
  r_content :: string
  r_channel_id :: string
  r_user_id :: string
  r_time :: string
  r_created_at :: string

record send_log =
  sl_id :: int
  sl_kind :: string
  sl_source :: "string option"
  sl_channel_id :: "string option"
  sl_user_id :: "string option"
  sl_content :: "string option"
  sl_status :: string
  sl_error :: "string option"
  sl_message_id :: "string option"
  sl_ref_id :: "int option"
  sl_retry_count :: int
  sl_sent_at :: string

record activity_log =
  al_id :: int
  al_kind :: string
  al_source :: "string option"
  al_channel_id :: "string option"
  al_user_id :: "string option"
  al_status :: "string option"
  al_error :: "string option"
  al_message_id :: "string option"
  al_ref_id :: "int option"
  al_action :: "string option"
  al_emoji :: "string option"
  al_metadata :: "string option"
  al_created_at :: string

record rotation =
  rot_id :: int
  rot_table_name :: string
  rot_rotated_at :: string
  rot_records_archived :: int

text \<open>
  The database file: the rows of each table in insertion order, and for each
  AUTOINCREMENT table the last id handed out (\<open>sqlite_sequence\<close>).
\<close>

record db =
  tasks :: "task list"
  reminders :: "reminder list"
  send_logs :: "send_log list"
  activity_logs :: "activity_log list"
  log_rotation :: "rotation list"
  seq_tasks :: int
  seq_reminders :: int
  seq_send_logs :: int
  seq_activity_logs :: int
  seq_log_rotation :: int

text \<open>The \<open>data\<close> argument of \<open>logSend\<close> and \<open>logActivity\<close>: every property is optional.\<close>

record log_data =
  d_source :: "string option"
  d_channel_id :: "string option"
  d_user_id :: "string option"
  d_content :: "string option"
  d_status :: "string option"
  d_error :: "string option"
  d_message_id :: "string option"
  d_ref_id :: "int option"
  d_retry_count :: "int option"
  d_action :: "string option"
  d_emoji :: "string option"
  d_metadata :: "string option"

definition no_data :: log_data where
  "no_data = \<lparr>d_source = None, d_channel_id = None, d_user_id = None, d_content = None,
     d_status = None, d_error = None, d_message_id = None, d_ref_id = None,
     d_retry_count = None, d_action = None, d_emoji = None, d_metadata = None\<rparr>"

text \<open>
  \<open>logSend(kind, data)\<close>: one INSERT into \<open>send_logs\<close>; \<open>sent_at\<close> is the column default
  CURRENT_TIMESTAMP, passed as \<open>now\<close>.
\<close>

definition logSend :: "string \<Rightarrow> string \<Rightarrow> log_data \<Rightarrow> db \<Rightarrow> db" where
  "logSend now kind data d =
     d\<lparr>send_logs := send_logs d @
          [\<lparr>sl_id = seq_send_logs d + 1,
            sl_kind = kind,
            sl_source = or_null (d_source data),
            sl_channel_id = or_null (d_channel_id data),
            sl_user_id = or_null (d_user_id data),
            sl_content = or_null (d_content data),
            sl_status = or_default (d_status data) ''success'',
            sl_error = or_null (d_error data),
            sl_message_id = or_null (d_message_id data),
            sl_ref_id = or_null_num (d_ref_id data),
            sl_retry_count = or_zero (d_retry_count data),
            sl_sent_at = now\<rparr>],
       seq_send_logs := seq_send_logs d + 1\<rparr>"

definition logActivity :: "string \<Rightarrow> string \<Rightarrow> log_data \<Rightarrow> db \<Rightarrow> db" where
  "logActivity now kind data d =
     d\<lparr>activity_logs := activity_logs d @
          [\<lparr>al_id = seq_activity_logs d + 1,
            al_kind = kind,
            al_source = or_null (d_source data),
            al_channel_id = or_null (d_channel_id data),
            al_user_id = or_null (d_user_id data),
            al_status = Some (or_default (d_status data) ''success''),
            al_error = or_null (d_error data),
            al_message_id = or_null (d_message_id data),
            al_ref_id = or_null_num (d_ref_id data),
            al_action = or_null (d_action data),
            al_emoji = or_null (d_emoji data),
            al_metadata = or_null (d_metadata data),
            al_created_at = now\<rparr>],
       seq_activity_logs := seq_activity_logs d + 1\<rparr>"

section \<open>The outside world\<close>

text \<open>
  What the program reads from outside itself: the environment variable \<open>LOGS_TOKEN\<close> of
  each process, whether the dashboard reaches the bot over HTTP, the chat client's
  channel cache, the outcome of \<open>channel.send\<close> (\<open>Inr\<close> the id of the message sent,
  \<open>Inl\<close> the message of the error thrown), and node-cron's validation of the schedule
  built from a time and an optional day list (\<open>cron.schedule\<close> throws an error with the
  message given, \<open>None\<close> when it accepts the expression).
\<close>

record world =
  dash_LOGS_TOKEN :: "string option"
  bot_LOGS_TOKEN :: "string option"
  bot_reachable :: bool
  channel_cached :: "string \<Rightarrow> bool"
  channel_send :: "string \<Rightarrow> string \<Rightarrow> string + string"
  cron_validate :: "string \<Rightarrow> string option \<Rightarrow> string option"

section \<open>The bot's HTTP API (bot/index.js)\<close>

text \<open>
  \<open>app.post('/send-once')\<close>, behind \<open>authenticateLogsToken\<close>. It touches the store only,
  so it is a function of the store.
\<close>

definition send_once :: "world \<Rightarrow> string \<Rightarrow> string option \<Rightarrow> string \<Rightarrow> string \<Rightarrow> db \<Rightarrow> response \<times> db" where
  "send_once w now token content channel_id d =
     (if token \<noteq> bot_LOGS_TOKEN w then
        (Response 401 (JObject [(''error'', JString ''Unauthorized'')]), d)
      else if \<not> channel_cached w channel_id then
        (Response 404 (JObject [(''error'', JString ''Channel not found'')]), d)
      else case channel_send w channel_id content of
        Inr message_id \<Rightarrow>
          (Response 200 (JObject [(''message'', JString ''Message sent''),
                                  (''message_id'', JString message_id)]),
           logSend now ''send_once''
             (no_data\<lparr>d_source := Some ''http_api'', d_channel_id := Some channel_id,
                d_content := Some content, d_status := Some ''sent'',
                d_message_id := Some message_id\<rparr>) d)
      | Inl err \<Rightarrow>
          (Response 500 (JObject [(''error'', JString err)]),
           logSend now ''send_once''
             (no_data\<lparr>d_source := Some ''http_api'', d_channel_id := Some channel_id,
                d_content := Some content, d_status := Some ''failed'',
                d_error := Some err\<rparr>) d))"

section \<open>Retry (dashboard, POST /api/logs/[id]/retry)\<close>

definition reminder_message :: "string \<Rightarrow> string" where
  "reminder_message content = [CHR 0xE2, CHR 0x8F, CHR 0xB0] @ '' **Reminder:** '' @ content"

definition task_message :: "string \<Rightarrow> string" where
  "task_message content = [CHR 0xF0, CHR 0x9F, CHR 0x93, CHR 0x9D] @ '' **Task:** '' @ content"

text \<open>The header value \<open>process.env.LOGS_TOKEN!\<close> sent to the bot.\<close>

definition forwarded_token :: "world \<Rightarrow> string option" where
  "forwarded_token w = (case dash_LOGS_TOKEN w of None \<Rightarrow> Some ''undefined'' | Some t \<Rightarrow> Some t)"

text \<open>
  The \<open>fetch\<close> of the bot's \<open>/send-once\<close> and what follows it: a network failure or a
  response that is not ok throws, and the \<open>catch\<close> answers 500.
\<close>

definition call_bot :: "world \<Rightarrow> string \<Rightarrow> string \<Rightarrow> string \<Rightarrow> db \<Rightarrow> response \<times> db" where
  "call_bot w now content channel_id d =
     (if \<not> bot_reachable w then
        (Response 500 (JObject [(''error'', JString ''Failed to retry log entry'')]), d)
      else case send_once w now (forwarded_token w) content channel_id d of
        (Response code result, d') \<Rightarrow>
          if 200 \<le> code \<and> code < 300 then
            (Response 200 (JObject [(''message'', JString ''Retry sent successfully''),
                                    (''result'', result)]), d')
          else (Response 500 (JObject [(''error'', JString ''Failed to retry log entry'')]), d'))"

text \<open>
  \<open>token !== process.env.LOGS_TOKEN\<close> in a route of the dashboard: \<open>token\<close> is
  \<open>request.headers.get('x-logs-token')\<close>, which is \<open>null\<close> when the request has no such
  header, and the variable is \<open>undefined\<close> when it is not set. \<open>null\<close> and \<open>undefined\<close>
  are not identical, so the two agree only when both are strings, the same one. (In the
  bot, \<open>req.headers['x-logs-token']\<close> is \<open>undefined\<close> when the header is absent, and a
  request without the header passes when the variable is not set: there the test is
  the equality of the two optional values.)
\<close>

definition token_matches :: "string option \<Rightarrow> string option \<Rightarrow> bool" where
  "token_matches token env = (case token of None \<Rightarrow> False | Some t \<Rightarrow> env = Some t)"

text \<open>
  The route: \<open>logId\<close> is \<open>parseInt(params.id)\<close>; the queries of the route pass a callback
  to \<open>db.get\<close> and read the row there.
\<close>

definition retry :: "world \<Rightarrow> string \<Rightarrow> string option \<Rightarrow> string \<Rightarrow> db \<Rightarrow> response \<times> db" where
  "retry w now token id_param d =
     (if \<not> token_matches token (dash_LOGS_TOKEN w) then
        (Response 401 (JObject [(''error'', JString ''Unauthorized'')]), d)
      else case parseInt id_param of
        None \<Rightarrow> (Response 400 (JObject [(''error'', JString ''Invalid log ID'')]), d)
      | Some logId \<Rightarrow>
         (case find (\<lambda>l. sl_id l = logId \<and> sl_status l = ''failed'') (send_logs d) of
            None \<Rightarrow> (Response 404 (JObject [(''error'', JString ''Failed log entry not found'')]), d)
          | Some log \<Rightarrow>
             if sl_kind log = ''reminder'' then
               (case or_null_num (sl_ref_id log) of
                  None \<Rightarrow> (Response 400
                             (JObject [(''error'', JString ''Cannot retry: missing reference ID'')]), d)
                | Some ref \<Rightarrow>
                   (case find (\<lambda>r. r_id r = ref) (reminders d) of
                      None \<Rightarrow> (Response 404
                                 (JObject [(''error'', JString ''Original reminder not found'')]), d)
                    | Some reminder \<Rightarrow>
                        call_bot w now (reminder_message (r_content reminder))
                          (r_channel_id reminder) d))
             else if sl_kind log = ''task'' then
               (case or_null_num (sl_ref_id log) of
                  None \<Rightarrow> (Response 400
                             (JObject [(''error'', JString ''Cannot retry: missing reference ID'')]), d)
                | Some ref \<Rightarrow>
                   (case find (\<lambda>t. t_id t = ref) (tasks d) of
                      None \<Rightarrow> (Response 404
                                 (JObject [(''error'', JString ''Original task not found'')]), d)
                    | Some task \<Rightarrow>
                        call_bot w now (task_message (t_content task)) (t_channel_id task) d))
             else (Response 400
                     (JObject [(''error'', JString ''Cannot retry this type of log entry'')]), d)))"

section \<open>The scheduler (bot/index.js)\<close>

text \<open>
  A job is the object \<open>cron.schedule\<close> returns: the data its callback closes over, the
  schedule it was built from (the time of day and, for a task, the optional day list;
  the cron expression itself is node-cron's business) and whether it is started. The bot
  keeps every job object it has created in \<open>jobs\<close>, named by its position, and the
  module-level \<open>Map\<close> \<open>cronJobs\<close> from a key to a job. A job that is started fires
  whether or not \<open>cronJobs\<close> still holds it. The \<open>id\<close> a job is scheduled with is an
  integer or \<open>undefined\<close> (\<open>None\<close>); the key is built from it with a template literal.
\<close>

record job =
  j_kind :: string
  j_id :: "int option"
  j_content :: string
  j_channelId :: string
  j_userId :: string
  j_time :: string
  j_days :: "string option"
  j_running :: bool

record bot =
  store :: db
  jobs :: "job list"
  cronJobs :: "(string \<times> nat) list"

definition id_text :: "int option \<Rightarrow> string" where
  "id_text i = (case i of None \<Rightarrow> ''undefined'' | Some n \<Rightarrow> string_of_int n)"

definition reminder_key :: "int option \<Rightarrow> string" where
  "reminder_key i = ''reminder_'' @ id_text i"

definition task_key :: "int option \<Rightarrow> string" where
  "task_key i = ''task_'' @ id_text i"

text \<open>\<open>scheduleReminder\<close>: \<open>Inl\<close> is the error \<open>cron.schedule\<close> throws.\<close>

definition scheduleReminder ::
  "world \<Rightarrow> int option \<Rightarrow> string \<Rightarrow> string \<Rightarrow> string \<Rightarrow> string \<Rightarrow> bot \<Rightarrow> string + bot" where
  "scheduleReminder w i content channelId userId time b =
     (case cron_validate w time None of
        Some err \<Rightarrow> Inl err
      | None \<Rightarrow>
          Inr (b\<lparr>jobs := jobs b @
                  [\<lparr>j_kind = ''reminder'', j_id = i, j_content = content,
                    j_channelId = channelId, j_userId = userId, j_time = time,
                    j_days = None, j_running = True\<rparr>],
                cronJobs := AList.update (reminder_key i) (length (jobs b)) (cronJobs b)\<rparr>))"

definition scheduleTask ::
  "world \<Rightarrow> int option \<Rightarrow> string \<Rightarrow> string \<Rightarrow> string \<Rightarrow> string \<Rightarrow> string option \<Rightarrow> bot
     \<Rightarrow> string + bot" where
  "scheduleTask w i content channelId userId time days b =
     (case cron_validate w time (or_null days) of
        Some err \<Rightarrow> Inl err
      | None \<Rightarrow>
          Inr (b\<lparr>jobs := jobs b @
                  [\<lparr>j_kind = ''task'', j_id = i, j_content = content,
                    j_channelId = channelId, j_userId = userId, j_time = time,
                    j_days = or_null days, j_running = True\<rparr>],
                cronJobs := AList.update (task_key i) (length (jobs b)) (cronJobs b)\<rparr>))"

text \<open>
  The callback given to \<open>cron.schedule\<close>, run at each instant the schedule matches: the
  same code for a reminder and a task but for the kind and the prefix of the message.
\<close>

definition job_message :: "job \<Rightarrow> string" where
  "job_message j = (if j_kind j = ''reminder'' then reminder_message (j_content j)
                    else task_message (j_content j))"

definition on_fire :: "world \<Rightarrow> string \<Rightarrow> job \<Rightarrow> db \<Rightarrow> db" where
  "on_fire w now j d =
     (if channel_cached w (j_channelId j) then
        (case channel_send w (j_channelId j) (job_message j) of
           Inr message_id \<Rightarrow>
             logSend now (j_kind j)
               (no_data\<lparr>d_source := Some ''cron'', d_channel_id := Some (j_channelId j),
                  d_user_id := Some (j_userId j), d_content := Some (job_message j),
                  d_status := Some ''sent'', d_message_id := Some message_id,
                  d_ref_id := j_id j\<rparr>) d
         | Inl err \<Rightarrow>
             logSend now (j_kind j)
               (no_data\<lparr>d_source := Some ''cron'', d_channel_id := Some (j_channelId j),
                  d_user_id := Some (j_userId j), d_content := Some (job_message j),
                  d_status := Some ''failed'', d_error := Some err,
                  d_ref_id := j_id j\<rparr>) d)
      else d)"

text \<open>The firing of job \<open>h\<close>: a job that was stopped does not run its callback.\<close>

definition fire :: "world \<Rightarrow> string \<Rightarrow> nat \<Rightarrow> bot \<Rightarrow> bot" where
  "fire w now h b =
     (if h < length (jobs b) \<and> j_running (jobs b ! h)
      then b\<lparr>store := on_fire w now (jobs b ! h) (store b)\<rparr> else b)"

text \<open>The key under which a job was registered, and the started jobs of a key.\<close>

definition job_key :: "job \<Rightarrow> string" where
  "job_key j = j_kind j @ ''_'' @ id_text (j_id j)"

definition live_triggers :: "bot \<Rightarrow> string \<Rightarrow> nat list" where
  "live_triggers b k =
     filter (\<lambda>h. j_running (jobs b ! h) \<and> job_key (jobs b ! h) = k) [0..<length (jobs b)]"

text \<open>
  The removal of a job from the registry, as \<open>handleDeleteReminder\<close> does it:
  \<open>if (cronJobs.has(key)) { cronJobs.get(key).stop(); cronJobs.delete(key) }\<close>.
\<close>

definition unschedule :: "string \<Rightarrow> bot \<Rightarrow> bot" where
  "unschedule k b =
     (case map_of (cronJobs b) k of
        None \<Rightarrow> b
      | Some h \<Rightarrow> b\<lparr>jobs := (jobs b)[h := (jobs b ! h)\<lparr>j_running := False\<rparr>],
                    cronJobs := AList.delete k (cronJobs b)\<rparr>)"

text \<open>
  \<open>loadScheduledItems\<close>, run once when the client is ready: every reminder row, then
  every task row.
\<close>

fun schedule_reminders :: "world \<Rightarrow> reminder list \<Rightarrow> bot \<Rightarrow> string + bot" where
  "schedule_reminders w [] b = Inr b"
| "schedule_reminders w (r # rs) b =
     (case scheduleReminder w (Some (r_id r)) (r_content r) (r_channel_id r) (r_user_id r)
             (r_time r) b of
        Inl err \<Rightarrow> Inl err
      | Inr b' \<Rightarrow> schedule_reminders w rs b')"

fun schedule_tasks :: "world \<Rightarrow> task list \<Rightarrow> bot \<Rightarrow> string + bot" where
  "schedule_tasks w [] b = Inr b"
| "schedule_tasks w (t # ts) b =
     (case scheduleTask w (Some (t_id t)) (t_content t) (t_channel_id t) (t_user_id t)
             (t_time t) (t_days t) b of
        Inl err \<Rightarrow> Inl err
      | Inr b' \<Rightarrow> schedule_tasks w ts b')"

definition loadScheduledItems :: "world \<Rightarrow> bot \<Rightarrow> string + bot" where
  "loadScheduledItems w b =
     (case schedule_reminders w (reminders (store b)) b of
        Inl err \<Rightarrow> Inl err
      | Inr b' \<Rightarrow> schedule_tasks w (tasks (store b)) b')"

subsection \<open>Creating reminders and tasks over HTTP\<close>

text \<open>
  The INSERT of a row: the id is the AUTOINCREMENT id, \<open>created_at\<close> the column default.
\<close>

definition insert_reminder :: "string \<Rightarrow> string \<Rightarrow> string \<Rightarrow> string \<Rightarrow> string \<Rightarrow> db \<Rightarrow> db" where
  "insert_reminder now content channel_id user_id time d =
     d\<lparr>reminders := reminders d @
          [\<lparr>r_id = seq_reminders d + 1, r_content = content, r_channel_id = channel_id,
            r_user_id = user_id, r_time = time, r_created_at = now\<rparr>],
       seq_reminders := seq_reminders d + 1\<rparr>"

definition insert_task ::
  "string \<Rightarrow> string \<Rightarrow> string \<Rightarrow> string \<Rightarrow> string \<Rightarrow> string option \<Rightarrow> db \<Rightarrow> db" where
  "insert_task now content channel_id user_id time days d =
     d\<lparr>tasks := tasks d @
          [\<lparr>t_id = seq_tasks d + 1, t_content = content, t_channel_id = channel_id,
            t_user_id = user_id, t_time = time, t_days = or_null days, t_created_at = now\<rparr>],
       seq_tasks := seq_tasks d + 1\<rparr>"

text \<open>
  \<open>app.post('/add-reminder')\<close> and \<open>app.post('/add-task')\<close>. The handlers call
  \<open>const result = stmt.run(...)\<close> with no callback and read \<open>result.lastID\<close> at once:
  \<open>result\<close> is the statement object, whose \<open>lastID\<close> is set only once the statement has
  run, so \<open>result.lastID\<close> is \<open>undefined\<close> at each of its three uses. The job is
  scheduled with the id \<open>undefined\<close>, the activity is logged with no \<open>ref_id\<close>, and
  \<open>res.json\<close> leaves the property \<open>id\<close> out of the answer.
\<close>

definition add_reminder ::
  "world \<Rightarrow> string \<Rightarrow> string option \<Rightarrow> string \<Rightarrow> string \<Rightarrow> string \<Rightarrow> string \<Rightarrow> bot \<Rightarrow> response \<times> bot" where
  "add_reminder w now token content channel_id user_id time b =
     (if token \<noteq> bot_LOGS_TOKEN w then
        (Response 401 (JObject [(''error'', JString ''Unauthorized'')]), b)
      else let d1 = insert_reminder now content channel_id user_id time (store b);
               lastID = None
           in case scheduleReminder w lastID content channel_id user_id time (b\<lparr>store := d1\<rparr>) of
                Inl err \<Rightarrow> (Response 500 (JObject [(''error'', JString err)]), b\<lparr>store := d1\<rparr>)
              | Inr b2 \<Rightarrow>
                  (Response 200 (JObject [(''message'', JString ''Reminder added'')]),
                   b2\<lparr>store := logActivity now ''activity:reminder_added''
                         (no_data\<lparr>d_source := Some ''http_api'', d_channel_id := Some channel_id,
                            d_user_id := Some user_id, d_ref_id := lastID\<rparr>) (store b2)\<rparr>))"

definition add_task ::
  "world \<Rightarrow> string \<Rightarrow> string option \<Rightarrow> string \<Rightarrow> string \<Rightarrow> string \<Rightarrow> string \<Rightarrow> string option
     \<Rightarrow> bot \<Rightarrow> response \<times> bot" where
  "add_task w now token content channel_id user_id time days b =
     (if token \<noteq> bot_LOGS_TOKEN w then
        (Response 401 (JObject [(''error'', JString ''Unauthorized'')]), b)
      else let d1 = insert_task now content channel_id user_id time days (store b);
               lastID = None
           in case scheduleTask w lastID content channel_id user_id time days (b\<lparr>store := d1\<rparr>) of
                Inl err \<Rightarrow> (Response 500 (JObject [(''error'', JString err)]), b\<lparr>store := d1\<rparr>)
              | Inr b2 \<Rightarrow>
                  (Response 200 (JObject [(''message'', JString ''Task added'')]),
                   b2\<lparr>store := logActivity now ''activity:task_added''
                         (no_data\<lparr>d_source := Some ''http_api'', d_channel_id := Some channel_id,
                            d_user_id := Some user_id, d_ref_id := lastID\<rparr>) (store b2)\<rparr>))"

subsection \<open>Slash commands\<close>

text \<open>
  What a handler tells the user through \<open>interaction.editReply\<close>, by which message it
  is. The reply is the last statement of every branch of a handler, so the state a
  handler returns is the state in which the user is answered.
\<close>

datatype reply =
    InvalidTimeFormat
  | InvalidDaysFormat
  | TaskAdded string string "string option"
  | AddTaskFailed
  | ReminderAdded string string
  | AddReminderFailed
  | ReminderNotFound
  | ReminderDeleted "string option" int
  | DeleteReminderFailed

definition in_range :: "char \<Rightarrow> char \<Rightarrow> char \<Rightarrow> bool" where
  "in_range lo hi c = (lo \<le> c \<and> c \<le> hi)"

text \<open>\<open>/^([01]?[0-9]|2[0-3]):[0-5][0-9]$/.test(time)\<close>\<close>

fun timeRegex_test :: "string \<Rightarrow> bool" where
  "timeRegex_test [h, c, m1, m2] =
     (is_digit h \<and> c = CHR '':'' \<and> in_range (CHR ''0'') (CHR ''5'') m1 \<and> is_digit m2)"
| "timeRegex_test [h1, h2, c, m1, m2] =
     ((((h1 = CHR ''0'' \<or> h1 = CHR ''1'') \<and> is_digit h2)
        \<or> (h1 = CHR ''2'' \<and> in_range (CHR ''0'') (CHR ''3'') h2))
      \<and> c = CHR '':'' \<and> in_range (CHR ''0'') (CHR ''5'') m1 \<and> is_digit m2)"
| "timeRegex_test _ = False"

text \<open>\<open>s.split(c)\<close> and \<open>s.trim()\<close>.\<close>

fun split_on :: "char \<Rightarrow> string \<Rightarrow> string list" where
  "split_on c [] = [[]]"
| "split_on c (x # xs) =
     (if x = c then [] # split_on c xs
      else (case split_on c xs of [] \<Rightarrow> [[x]] | p # ps \<Rightarrow> (x # p) # ps))"

definition trim :: "string \<Rightarrow> string" where
  "trim s = rev (dropWhile is_space (rev (dropWhile is_space s)))"

text \<open>
  \<open>days.split(',').map(d => d.trim()).every(day => { const num = parseInt(day);
  return !isNaN(num) && num >= 0 && num <= 6 })\<close>
\<close>

definition valid_day :: "string \<Rightarrow> bool" where
  "valid_day day = (case parseInt day of None \<Rightarrow> False | Some num \<Rightarrow> 0 \<le> num \<and> num \<le> 6)"

definition validDays :: "string \<Rightarrow> bool" where
  "validDays days = list_all valid_day (map trim (split_on (CHR '','') days))"

text \<open>
  The \<open>try\<close> block of \<open>handleAddTask\<close> and of \<open>handleAddReminder\<close>; \<open>result.lastID\<close> is
  \<open>undefined\<close> here as in the HTTP handlers.
\<close>

definition create_task ::
  "world \<Rightarrow> string \<Rightarrow> string \<Rightarrow> string \<Rightarrow> string \<Rightarrow> string \<Rightarrow> string option \<Rightarrow> bot \<Rightarrow> reply \<times> bot" where
  "create_task w now user channel content time days b =
     (let d1 = insert_task now content channel user time days (store b);
          lastID = None
      in case scheduleTask w lastID content channel user time days (b\<lparr>store := d1\<rparr>) of
           Inl err \<Rightarrow>
             (AddTaskFailed,
              b\<lparr>store := logActivity now ''activity:task_add_failed''
                   (no_data\<lparr>d_source := Some ''discord_slash'', d_channel_id := Some channel,
                      d_user_id := Some user, d_status := Some ''failed'',
                      d_error := Some err, d_action := Some ''add_task''\<rparr>) d1\<rparr>)
         | Inr b2 \<Rightarrow>
             (TaskAdded content time (or_null days),
              b2\<lparr>store := logActivity now ''activity:task_added''
                    (no_data\<lparr>d_source := Some ''discord_slash'', d_channel_id := Some channel,
                       d_user_id := Some user, d_status := Some ''success'',
                       d_ref_id := lastID, d_action := Some ''add_task''\<rparr>)
                    (store b2)\<rparr>))"

definition handleAddTask ::
  "world \<Rightarrow> string \<Rightarrow> string \<Rightarrow> string \<Rightarrow> string \<Rightarrow> string \<Rightarrow> string option \<Rightarrow> bot \<Rightarrow> reply \<times> bot" where
  "handleAddTask w now user channel content time days b =
     (if \<not> timeRegex_test time then (InvalidTimeFormat, b)
      else case or_null days of
        None \<Rightarrow> create_task w now user channel content time days b
      | Some ds \<Rightarrow>
          if \<not> validDays ds then (InvalidDaysFormat, b)
          else create_task w now user channel content time days b)"

definition create_reminder ::
  "world \<Rightarrow> string \<Rightarrow> string \<Rightarrow> string \<Rightarrow> string \<Rightarrow> string \<Rightarrow> bot \<Rightarrow> reply \<times> bot" where
  "create_reminder w now user channel content time b =
     (let d1 = insert_reminder now content channel user time (store b);
          lastID = None
      in case scheduleReminder w lastID content channel user time (b\<lparr>store := d1\<rparr>) of
           Inl err \<Rightarrow>
             (AddReminderFailed,
              b\<lparr>store := logActivity now ''activity:reminder_add_failed''
                   (no_data\<lparr>d_source := Some ''discord_slash'', d_channel_id := Some channel,
                      d_user_id := Some user, d_status := Some ''failed'',
                      d_error := Some err, d_action := Some ''add_reminder''\<rparr>) d1\<rparr>)
         | Inr b2 \<Rightarrow>
             (ReminderAdded content time,
              b2\<lparr>store := logActivity now ''activity:reminder_added''
                    (no_data\<lparr>d_source := Some ''discord_slash'', d_channel_id := Some channel,
                       d_user_id := Some user, d_status := Some ''success'',
                       d_ref_id := lastID, d_action := Some ''add_reminder''\<rparr>)
                    (store b2)\<rparr>))"

definition handleAddReminder ::
  "world \<Rightarrow> string \<Rightarrow> string \<Rightarrow> string \<Rightarrow> string \<Rightarrow> string \<Rightarrow> bot \<Rightarrow> reply \<times> bot" where
  "handleAddReminder w now user channel content time b =
     (if \<not> timeRegex_test time then (InvalidTimeFormat, b)
      else create_reminder w now user channel content time b)"

text \<open>
  \<open>handleDeleteReminder\<close>. \<open>const reminder = checkStmt.get(reminderId, user.id)\<close> has no
  callback: the SELECT by id and owner runs and its row goes nowhere, and \<open>reminder\<close> is
  the statement object, whatever the table holds. So \<open>!reminder\<close> is false and the
  branch that answers \<open>Reminder not found or you don't have permission to delete it\<close>
  (\<open>ReminderNotFound\<close>) is never taken, and \<open>reminder.content\<close> is \<open>undefined\<close>. What
  runs is the rest: \<open>DELETE FROM reminders WHERE id = ?\<close>, the removal from \<open>cronJobs\<close>
  of the key built from \<open>reminderId\<close>, the activity log, and then the answer.
\<close>

definition handleDeleteReminder :: "string \<Rightarrow> string \<Rightarrow> string \<Rightarrow> int \<Rightarrow> bot \<Rightarrow> reply \<times> bot" where
  "handleDeleteReminder now user channel reminderId b =
     (let reminder_content = None;
          b1 = b\<lparr>store := (store b)\<lparr>reminders :=
                 filter (\<lambda>r. r_id r \<noteq> reminderId) (reminders (store b))\<rparr>\<rparr>;
          b2 = unschedule (reminder_key (Some reminderId)) b1;
          b3 = b2\<lparr>store := logActivity now ''activity:reminder_deleted''
                 (no_data\<lparr>d_source := Some ''discord_slash'', d_channel_id := Some channel,
                    d_user_id := Some user, d_status := Some ''success'',
                    d_ref_id := Some reminderId, d_action := Some ''delete_reminder''\<rparr>)
                 (store b2)\<rparr>
      in (ReminderDeleted reminder_content reminderId, b3))"

subsection \<open>The registry as a state machine\<close>

text \<open>
  The registry is sound when every started job is the one \<open>cronJobs\<close> holds under the
  job's key. The operations on it are the two registrations and the removal of a key;
  a registration that throws leaves the state as it was. A run is fresh when no
  registration in it targets a key that has a started job at that moment.
\<close>

definition registry_ok :: "bot \<Rightarrow> bool" where
  "registry_ok b = (list_all (\<lambda>h. j_running (jobs b ! h) \<longrightarrow>
        map_of (cronJobs b) (job_key (jobs b ! h)) = Some h) [0..<length (jobs b)])"

datatype sched_op =
    RegisterReminder "int option" string string string string
  | RegisterTask "int option" string string string string "string option"
  | Unregister string

fun sched_step :: "world \<Rightarrow> sched_op \<Rightarrow> bot \<Rightarrow> bot" where
  "sched_step w (RegisterReminder i c ch u t) b =
     (case scheduleReminder w i c ch u t b of Inl err \<Rightarrow> b | Inr b' \<Rightarrow> b')"
| "sched_step w (RegisterTask i c ch u t ds) b =
     (case scheduleTask w i c ch u t ds b of Inl err \<Rightarrow> b | Inr b' \<Rightarrow> b')"
| "sched_step w (Unregister k) b = unschedule k b"

fun sched_run :: "world \<Rightarrow> sched_op list \<Rightarrow> bot \<Rightarrow> bot" where
  "sched_run w [] b = b"
| "sched_run w (x # xs) b = sched_run w xs (sched_step w x b)"

fun fresh_op :: "sched_op \<Rightarrow> bot \<Rightarrow> bool" where
  "fresh_op (RegisterReminder i c ch u t) b = (live_triggers b (reminder_key i) = [])"
| "fresh_op (RegisterTask i c ch u t ds) b = (live_triggers b (task_key i) = [])"
| "fresh_op (Unregister k) b = True"

fun registers_fresh :: "world \<Rightarrow> sched_op list \<Rightarrow> bot \<Rightarrow> bool" where
  "registers_fresh w [] b = True"
| "registers_fresh w (x # xs) b = (fresh_op x b \<and> registers_fresh w xs (sched_step w x b))"

text \<open>
  \<open>loadScheduledItems\<close> as a run: the registration of every reminder row, then of
  every task row.
\<close>

definition rebuild_ops :: "db \<Rightarrow> sched_op list" where
  "rebuild_ops d =
     map (\<lambda>r. RegisterReminder (Some (r_id r)) (r_content r) (r_channel_id r) (r_user_id r)
                  (r_time r)) (reminders d)
     @ map (\<lambda>t. RegisterTask (Some (t_id t)) (t_content t) (t_channel_id t) (t_user_id t)
                  (t_time t) (t_days t)) (tasks d)"

section \<open>Timestamps\<close>

text \<open>
  Every timestamp column is \<open>TEXT DEFAULT CURRENT_TIMESTAMP\<close> and no INSERT of the program
  gives the column a value, so a stored timestamp is SQLite's rendering of the UTC time
  of the insert, \<open>YYYY-MM-DD HH:MM:SS\<close>. A JavaScript \<open>Date\<close> is rendered by
  \<open>toISOString()\<close> as \<open>YYYY-MM-DDTHH:mm:ss.sssZ\<close>. Both are functions of the UTC calendar
  fields of the instant; instants are ordered field by field.
\<close>

record datetime =
  dt_year :: nat
  dt_month :: nat
  dt_day :: nat
  dt_hour :: nat
  dt_minute :: nat
  dt_second :: nat
  dt_millis :: nat

definition pad :: "nat \<Rightarrow> nat \<Rightarrow> string" where
  "pad width n = replicate (width - length (string_of_nat n)) (CHR ''0'') @ string_of_nat n"

definition CURRENT_TIMESTAMP :: "datetime \<Rightarrow> string" where
  "CURRENT_TIMESTAMP t =
     pad 4 (dt_year t) @ ''-'' @ pad 2 (dt_month t) @ ''-'' @ pad 2 (dt_day t) @ '' '' @
     pad 2 (dt_hour t) @ '':'' @ pad 2 (dt_minute t) @ '':'' @ pad 2 (dt_second t)"

definition toISOString :: "datetime \<Rightarrow> string" where
  "toISOString t =
     pad 4 (dt_year t) @ ''-'' @ pad 2 (dt_month t) @ ''-'' @ pad 2 (dt_day t) @ ''T'' @
     pad 2 (dt_hour t) @ '':'' @ pad 2 (dt_minute t) @ '':'' @ pad 2 (dt_second t) @ ''.'' @
     pad 3 (dt_millis t) @ ''Z''"

definition dt_fields :: "datetime \<Rightarrow> nat list" where
  "dt_fields t = [dt_year t, dt_month t, dt_day t, dt_hour t, dt_minute t, dt_second t,
                  dt_millis t]"

fun fields_less :: "nat list \<Rightarrow> nat list \<Rightarrow> bool" where
  "fields_less (x # xs) (y # ys) = (x < y \<or> (x = y \<and> fields_less xs ys))"
| "fields_less _ _ = False"

definition earlier :: "datetime \<Rightarrow> datetime \<Rightarrow> bool" where
  "earlier s t = fields_less (dt_fields s) (dt_fields t)"

text \<open>Two instants on the same UTC calendar day.\<close>

definition same_day :: "datetime \<Rightarrow> datetime \<Rightarrow> bool" where
  "same_day s t = (dt_year s = dt_year t \<and> dt_month s = dt_month t \<and> dt_day s = dt_day t)"

section \<open>Log rotation (bot/database.js)\<close>

text \<open>
  \<open>rotateLogs(maxAge)\<close>. \<open>cutoffDate\<close> is the \<open>Date\<close> the method computes, the current
  time moved back by \<open>maxAge\<close> days with \<open>setDate\<close>; the arithmetic of \<open>Date\<close> is not
  modelled, the method is a function of its result. \<open>now\<close> is the \<open>rotated_at\<close> default
  of the marker row. The comparisons are SQLite's, on TEXT.
\<close>

definition rotateLogs :: "datetime \<Rightarrow> string \<Rightarrow> db \<Rightarrow> int \<times> db" where
  "rotateLogs cutoffDate now d =
     (let cutoffString = toISOString cutoffDate;
          sendLogsCount = int (length (filter (\<lambda>l. sl_sent_at l < cutoffString) (send_logs d)));
          activityLogsCount =
            int (length (filter (\<lambda>l. al_created_at l < cutoffString) (activity_logs d)));
          archived = sendLogsCount + activityLogsCount
      in if archived = 0 then (0, d)
         else (archived,
               d\<lparr>send_logs := filter (\<lambda>l. \<not> sl_sent_at l < cutoffString) (send_logs d),
                 activity_logs :=
                   filter (\<lambda>l. \<not> al_created_at l < cutoffString) (activity_logs d),
                 log_rotation := log_rotation d @
                   [\<lparr>rot_id = seq_log_rotation d + 1, rot_table_name = ''logs_combined'',
                     rot_rotated_at = now, rot_records_archived = archived\<rparr>],
                 seq_log_rotation := seq_log_rotation d + 1\<rparr>))"

section \<open>Schema migrations (bot/database.js)\<close>

text \<open>
  Migrations act on the columns of the tables, so here the store is kept at the level of
  SQLite: a table is its list of column names and its rows, a row gives each column a
  value. \<open>db.run\<close> of a statement that SQLite refuses calls back with an error whose
  message is modelled as SQLite words it.
\<close>

datatype sql_value = SqlNull | SqlInt int | SqlText string

record table =
  tbl_columns :: "string list"
  tbl_rows :: "(string \<times> sql_value) list list"

type_synonym schema = "(string \<times> table) list"

text \<open>\<open>s.includes(p)\<close>\<close>

fun str_includes :: "string \<Rightarrow> string \<Rightarrow> bool" where
  "str_includes [] p = (p = [])"
| "str_includes (c # cs) p = (take (length p) (c # cs) = p \<or> str_includes cs p)"

declare str_includes.simps [simp del]

definition no_such_table :: "string \<Rightarrow> string" where
  "no_such_table t = ''SQLITE_ERROR: no such table: '' @ t"

definition duplicate_column :: "string \<Rightarrow> string" where
  "duplicate_column c = ''SQLITE_ERROR: duplicate column name: '' @ c"


text \<open>
  \<open>ALTER TABLE t ADD COLUMN c ... DEFAULT d\<close>: existing rows read the default in the new
  column (NULL without a DEFAULT clause).
\<close>

definition add_column :: "string \<Rightarrow> string \<Rightarrow> sql_value \<Rightarrow> schema \<Rightarrow> string + schema" where
  "add_column t c dflt s =
     (case map_of s t of
        None \<Rightarrow> Inl (no_such_table t)
      | Some tb \<Rightarrow>
          if c \<in> set (tbl_columns tb) then Inl (duplicate_column c)
          else Inr (AList.update t
                 (tb\<lparr>tbl_columns := tbl_columns tb @ [c],
                     tbl_rows := map (\<lambda>r. r @ [(c, dflt)]) (tbl_rows tb)\<rparr>) s))"













section \<open>The log query (dashboard, GET /api/logs)\<close>

text \<open>
  A row as the two SELECT statements return it: the columns the tables share, the
  timestamp column renamed, and the table it came from. The activity query selects the
  empty string as \<open>content\<close>.
\<close>

record log_row =
  lr_id :: int
  lr_kind :: string
  lr_source :: "string option"
  lr_channel_id :: "string option"
  lr_user_id :: "string option"
  lr_content :: "string option"
  lr_status :: "string option"
  lr_error :: "string option"
  lr_message_id :: "string option"
  lr_ref_id :: "int option"
  lr_timestamp :: string
  lr_log_type :: string

definition send_row :: "send_log \<Rightarrow> log_row" where
  "send_row l = \<lparr>lr_id = sl_id l, lr_kind = sl_kind l, lr_source = sl_source l,
     lr_channel_id = sl_channel_id l, lr_user_id = sl_user_id l, lr_content = sl_content l,
     lr_status = Some (sl_status l), lr_error = sl_error l, lr_message_id = sl_message_id l,
     lr_ref_id = sl_ref_id l, lr_timestamp = sl_sent_at l, lr_log_type = ''send''\<rparr>"

definition activity_row :: "activity_log \<Rightarrow> log_row" where
  "activity_row l = \<lparr>lr_id = al_id l, lr_kind = al_kind l, lr_source = al_source l,
     lr_channel_id = al_channel_id l, lr_user_id = al_user_id l, lr_content = Some [],
     lr_status = al_status l, lr_error = al_error l, lr_message_id = al_message_id l,
     lr_ref_id = al_ref_id l, lr_timestamp = al_created_at l, lr_log_type = ''activity''\<rparr>"

text \<open>
  SQLite's \<open>LIKE\<close>: \<open>%\<close> matches any run of characters, \<open>_\<close> any one character, and
  ASCII letters match whatever their case. The pattern comes first.
\<close>

definition ascii_lower :: "char \<Rightarrow> char" where
  "ascii_lower c = (if 65 \<le> (of_char c :: nat) \<and> (of_char c :: nat) \<le> 90
                    then char_of ((of_char c :: nat) + 32) else c)"

fun sql_like :: "string \<Rightarrow> string \<Rightarrow> bool" where
  "sql_like [] s = (s = [])"
| "sql_like (p # ps) [] = (p = CHR ''%'' \<and> sql_like ps [])"
| "sql_like (p # ps) (c # cs) =
     (if p = CHR ''%'' then sql_like ps (c # cs) \<or> sql_like (p # ps) cs
      else (p = CHR ''_'' \<or> ascii_lower p = ascii_lower c) \<and> sql_like ps cs)"

text \<open>\<open>column LIKE '%' || x || '%'\<close> on a nullable column: NULL is not a match.\<close>

definition like_contains :: "string option \<Rightarrow> string \<Rightarrow> bool" where
  "like_contains col x = (case col of None \<Rightarrow> False | Some s \<Rightarrow> sql_like (''%'' @ x @ ''%'') s)"

text \<open>
  The query string of the request: \<open>searchParams.get\<close> of each parameter, \<open>None\<close> when
  it is absent.
\<close>

record logs_query =
  q_kind :: "string option"
  q_status :: "string option"
  q_channel_id :: "string option"
  q_q :: "string option"
  q_cursor :: "string option"
  q_limit :: "string option"

text \<open>
  The filter conditions of the two WHERE clauses. They differ in the free-text
  condition only: the activity table has no \<open>content\<close> column.
\<close>

definition filter_conditions :: "logs_query \<Rightarrow> log_row \<Rightarrow> bool" where
  "filter_conditions qry r =
     ((case or_null (q_kind qry) of None \<Rightarrow> True | Some kind \<Rightarrow> like_contains (Some (lr_kind r)) kind)
      \<and> (case or_null (q_status qry) of None \<Rightarrow> True | Some status \<Rightarrow> lr_status r = Some status)
      \<and> (case or_null (q_channel_id qry) of None \<Rightarrow> True
          | Some channel_id \<Rightarrow> lr_channel_id r = Some channel_id)
      \<and> (case or_null (q_q qry) of None \<Rightarrow> True
          | Some q \<Rightarrow>
              (if lr_log_type r = ''send'' then like_contains (lr_content r) q else False)
              \<or> like_contains (Some (lr_kind r)) q \<or> like_contains (lr_error r) q))"

text \<open>
  \<open>const [timestamp, id] = cursor.split('_')\<close>, then the parameters \<open>timestamp\<close> and
  \<open>parseInt(id)\<close>; \<open>parseInt(undefined)\<close> is \<open>NaN\<close>, which SQLite reads as NULL.
\<close>

definition parse_cursor :: "string \<Rightarrow> string \<times> int option" where
  "parse_cursor cursor =
     (case split_on (CHR ''_'') cursor of
        [] \<Rightarrow> ([], None)
      | [timestamp] \<Rightarrow> (timestamp, None)
      | timestamp # i # rest \<Rightarrow> (timestamp, parseInt i))"

text \<open>\<open>((ts < ?) OR (ts = ? AND id < ?))\<close>; a comparison with NULL is not true.\<close>

definition cursor_condition :: "logs_query \<Rightarrow> log_row \<Rightarrow> bool" where
  "cursor_condition qry r =
     (case or_null (q_cursor qry) of
        None \<Rightarrow> True
      | Some cursor \<Rightarrow>
          (case parse_cursor cursor of
             (timestamp, i) \<Rightarrow>
               lr_timestamp r < timestamp
               \<or> (lr_timestamp r = timestamp
                    \<and> (case i of None \<Rightarrow> False | Some n \<Rightarrow> lr_id r < n))))"

text \<open>
  Sorting. \<open>sort_by ord\<close> is a stable insertion sort: an element goes in front of
  the first element it may stand before. \<open>ORDER BY ts DESC, id DESC\<close> is a sort by
  \<open>sql_order\<close>. \<open>Array.prototype.sort\<close> is stable, and with the comparator of the route
  it is a sort by \<open>js_order\<close>: \<open>getTime\<close> is \<open>new Date(s).getTime()\<close>, \<open>None\<close> for \<open>NaN\<close>,
  a comparator that returns \<open>NaN\<close> counts as returning 0. \<open>Date\<close> is the engine's and
  stays a parameter. (When the comparator is not a consistent ordering, which takes a
  timestamp \<open>Date\<close> cannot read, the result of \<open>sort\<close> depends on the engine.)
\<close>

fun insert_by :: "('a \<Rightarrow> 'a \<Rightarrow> bool) \<Rightarrow> 'a \<Rightarrow> 'a list \<Rightarrow> 'a list" where
  "insert_by ord x [] = [x]"
| "insert_by ord x (y # ys) =
     (if ord x y then x # y # ys else y # insert_by ord x ys)"

definition sort_by :: "('a \<Rightarrow> 'a \<Rightarrow> bool) \<Rightarrow> 'a list \<Rightarrow> 'a list" where
  "sort_by ord xs = foldr (insert_by ord) xs []"

definition sql_order :: "log_row \<Rightarrow> log_row \<Rightarrow> bool" where
  "sql_order a b = (lr_timestamp b < lr_timestamp a
                    \<or> (lr_timestamp a = lr_timestamp b \<and> lr_id b \<le> lr_id a))"

definition compare_logs :: "(string \<Rightarrow> int option) \<Rightarrow> log_row \<Rightarrow> log_row \<Rightarrow> int option" where
  "compare_logs getTime a b =
     (case (getTime (lr_timestamp a), getTime (lr_timestamp b)) of
        (Some timestampA, Some timestampB) \<Rightarrow>
          if timestampB \<noteq> timestampA then Some (timestampB - timestampA)
          else Some (lr_id b - lr_id a)
      | _ \<Rightarrow> None)"

definition js_order :: "(string \<Rightarrow> int option) \<Rightarrow> log_row \<Rightarrow> log_row \<Rightarrow> bool" where
  "js_order getTime a b = (case compare_logs getTime a b of None \<Rightarrow> True | Some c \<Rightarrow> c \<le> 0)"

text \<open>\<open>allLogs\<close> after the sort: both query results, concatenated and sorted.\<close>

definition merged_logs :: "(string \<Rightarrow> int option) \<Rightarrow> db \<Rightarrow> logs_query \<Rightarrow> log_row list" where
  "merged_logs getTime d qry =
     (let sendLogs = sort_by sql_order
            (filter (\<lambda>r. filter_conditions qry r \<and> cursor_condition qry r)
               (map send_row (send_logs d)));
          activityLogs = sort_by sql_order
            (filter (\<lambda>r. filter_conditions qry r \<and> cursor_condition qry r)
               (map activity_row (activity_logs d)))
      in sort_by (js_order getTime) (sendLogs @ activityLogs))"

text \<open>\<open>xs.slice(0, end)\<close>: a negative \<open>end\<close> counts from the end, \<open>NaN\<close> is 0.\<close>

definition slice0 :: "'a list \<Rightarrow> int option \<Rightarrow> 'a list" where
  "slice0 xs e =
     (case e of
        None \<Rightarrow> []
      | Some n \<Rightarrow> if n < 0 then take (nat (int (length xs) + n)) xs else take (nat n) xs)"

record logs_page =
  logs :: "log_row list"
  hasMore :: bool
  nextCursor :: "string option"

definition cursor_of :: "log_row \<Rightarrow> string" where
  "cursor_of r = lr_timestamp r @ ''_'' @ string_of_int (lr_id r)"

text \<open>The limit, the extra row and the cursor (\<open>slice\<close>, \<open>pop\<close>, the template).\<close>

definition paginate :: "int option \<Rightarrow> log_row list \<Rightarrow> logs_page" where
  "paginate limit allLogs =
     (let logs0 = slice0 allLogs (map_option (\<lambda>n. n + 1) limit);
          more = (case limit of None \<Rightarrow> False | Some n \<Rightarrow> int (length logs0) > n);
          page = (if more then butlast logs0 else logs0)
      in \<lparr>logs = page, hasMore = more,
          nextCursor = (if more \<and> page \<noteq> [] then Some (cursor_of (last page)) else None)\<rparr>)"

definition GET :: "(string \<Rightarrow> int option) \<Rightarrow> db \<Rightarrow> logs_query \<Rightarrow> logs_page" where
  "GET getTime d qry =
     paginate (parseInt (or_default (q_limit qry) ''50'')) (merged_logs getTime d qry)"

text \<open>
  A client that follows the cursor, as the dashboard's log page does: the same query
  with \<open>cursor\<close> set to the \<open>nextCursor\<close> of the page before, as long as \<open>hasMore\<close> is
  true. \<open>fuel\<close> bounds the number of requests; \<open>None\<close> is a client still asking when
  the fuel is spent.
\<close>

fun follow_cursor ::
  "nat \<Rightarrow> (string \<Rightarrow> int option) \<Rightarrow> db \<Rightarrow> logs_query \<Rightarrow> logs_page list option" where
  "follow_cursor 0 getTime d qry = None"
| "follow_cursor (Suc fuel) getTime d qry =
     (let page = GET getTime d qry
      in if hasMore page then
           (case follow_cursor fuel getTime d (qry\<lparr>q_cursor := nextCursor page\<rparr>) of
              None \<Rightarrow> None
            | Some pages \<Rightarrow> Some (page # pages))
         else Some [page])"

text \<open>Notions the pagination properties are stated with.\<close>

definition all_rows :: "db \<Rightarrow> log_row list" where
  "all_rows d = map send_row (send_logs d) @ map activity_row (activity_logs d)"

definition key_after :: "log_row \<Rightarrow> log_row \<Rightarrow> bool" where
  "key_after a b = (lr_timestamp b < lr_timestamp a
                    \<or> (lr_timestamp a = lr_timestamp b \<and> lr_id b < lr_id a))"

definition date_agrees :: "(string \<Rightarrow> int option) \<Rightarrow> string list \<Rightarrow> bool" where
  "date_agrees getTime stamps =
     list_all (\<lambda>s. list_all (\<lambda>t. s < t \<longrightarrow>
        (case (getTime s, getTime t) of (Some m, Some n) \<Rightarrow> m < n | _ \<Rightarrow> False)) stamps) stamps"

definition no_filter :: "string \<Rightarrow> logs_query" where
  "no_filter limit = \<lparr>q_kind = None, q_status = None, q_channel_id = None, q_q = None,
     q_cursor = None, q_limit = Some limit\<rparr>"

definition newest_first :: "log_row \<Rightarrow> log_row \<Rightarrow> bool" where
  "newest_first a b = (lr_timestamp b \<le> lr_timestamp a)"

definition selected :: "logs_query \<Rightarrow> log_row \<Rightarrow> bool" where
  "selected qry r = (filter_conditions qry r \<and> cursor_condition qry r)"

section \<open>Example data\<close>

definition example_world :: world where
  "example_world = \<lparr>dash_LOGS_TOKEN = Some ''secret'', bot_LOGS_TOKEN = Some ''secret'',
     bot_reachable = True, channel_cached = (\<lambda>c. c = ''general''),
     channel_send = (\<lambda>c m. if m = [] then Inl ''Cannot send an empty message'' else Inr ''9001''),
     cron_validate = (\<lambda>t d. None)\<rparr>"

definition empty_db :: db where
  "empty_db = \<lparr>tasks = [], reminders = [], send_logs = [], activity_logs = [], log_rotation = [],
     seq_tasks = 0, seq_reminders = 0, seq_send_logs = 0, seq_activity_logs = 0,
     seq_log_rotation = 0\<rparr>"

definition failed_task_log :: send_log where
  "failed_task_log = \<lparr>sl_id = 1, sl_kind = ''task'', sl_source = Some ''cron'',
     sl_channel_id = Some ''general'', sl_user_id = Some ''u1'', sl_content = Some ''standup'',
     sl_status = ''failed'', sl_error = Some ''Missing Access'', sl_message_id = None,
     sl_ref_id = Some 4, sl_retry_count = 0, sl_sent_at = ''2024-01-15 09:00:00''\<rparr>"

definition standup_task :: task where
  "standup_task = \<lparr>t_id = 4, t_content = ''standup'', t_channel_id = ''general'',
     t_user_id = ''u1'', t_time = ''09:00'', t_days = Some ''1,2,3,4,5'',
     t_created_at = ''2024-01-01 08:00:00''\<rparr>"

definition retry_db :: db where
  "retry_db = empty_db\<lparr>tasks := [standup_task], send_logs := [failed_task_log],
     seq_tasks := 4, seq_send_logs := 1\<rparr>"

definition empty_bot :: bot where
  "empty_bot = \<lparr>store = empty_db, jobs = [], cronJobs = []\<rparr>"

definition water_bot :: bot where
  "water_bot = \<lparr>store = empty_db\<lparr>reminders :=
          [\<lparr>r_id = 1, r_content = ''drink water'', r_channel_id = ''general'',
            r_user_id = ''u1'', r_time = ''09:00'', r_created_at = ''2024-01-01 08:00:00''\<rparr>],
          seq_reminders := 1\<rparr>,
      jobs = [\<lparr>j_kind = ''reminder'', j_id = Some 1, j_content = ''drink water'',
          j_channelId = ''general'', j_userId = ''u1'', j_time = ''09:00'',
          j_days = None, j_running = True\<rparr>],
      cronJobs = [(''reminder_1'', 0)]\<rparr>"

text \<open>The bot in which user \<open>u1\<close> has just created a reminder with the slash command.\<close>

definition stretch_bot :: bot where
  "stretch_bot = snd (handleAddReminder example_world ''2024-01-02 08:00:00'' ''u1'' ''general''
                        ''stretch'' ''10:00'' empty_bot)"

definition standup_job :: job where
  "standup_job = \<lparr>j_kind = ''task'', j_id = Some 4, j_content = ''standup'',
     j_channelId = ''general'', j_userId = ''u1'', j_time = ''09:00'',
     j_days = Some ''1,2,3,4,5'', j_running = True\<rparr>"

definition orphan_job :: job where
  "orphan_job = standup_job\<lparr>j_channelId := ''archived''\<rparr>"

text \<open>
  A world whose node-cron is strict about the schedule, as the library is about an hour
  beyond 23, a minute beyond 59 and a day of the week that is not a number: it accepts
  a time that \<open>timeRegex\<close> accepts, with days that \<open>parseInt\<close> reads as numbers from 0
  to 7 (\<open>scheduleTask\<close> builds the day list of the expression with \<open>parseInt\<close>).
\<close>

definition cron_day :: "string \<Rightarrow> bool" where
  "cron_day day = (case parseInt (trim day) of None \<Rightarrow> False | Some n \<Rightarrow> 0 \<le> n \<and> n \<le> 7)"

definition strict_cron_world :: world where
  "strict_cron_world = example_world\<lparr>cron_validate :=
      (\<lambda>time days.
         if timeRegex_test time
            \<and> (case days of None \<Rightarrow> True
                 | Some ds \<Rightarrow> list_all cron_day (split_on (CHR '','') ds))
         then None else Some ''invalid cron expression'')\<rparr>"

definition evening_of_jan_15 :: datetime where
  "evening_of_jan_15 = \<lparr>dt_year = 2024, dt_month = 1, dt_day = 15, dt_hour = 23,
     dt_minute = 0, dt_second = 0, dt_millis = 0\<rparr>"

definition morning_of_jan_15 :: datetime where
  "morning_of_jan_15 = \<lparr>dt_year = 2024, dt_month = 1, dt_day = 15, dt_hour = 10,
     dt_minute = 0, dt_second = 0, dt_millis = 0\<rparr>"

definition evening_db :: db where
  "evening_db = logSend (CURRENT_TIMESTAMP evening_of_jan_15) ''reminder''
      (no_data\<lparr>d_source := Some ''cron'', d_channel_id := Some ''general'',
         d_status := Some ''sent'', d_message_id := Some ''9001'', d_ref_id := Some 1\<rparr>)
      empty_db"


text \<open>
  A stand-in for \<open>Date\<close> on the timestamps SQLite writes: the number the digits of the
  timestamp spell, which orders such timestamps as the instants they name.
\<close>

definition digits_getTime :: "string \<Rightarrow> int option" where
  "digits_getTime s = Some (digits_value (filter is_digit s))"

text \<open>
  \<open>Date\<close> in the zone Europe/Berlin, where the clocks go from 02:00 to 03:00 on 31 March
  2024: a timestamp without a zone is read as a local time, the local time 02:30 of
  that day does not exist and is read with the offset before the change, so that
  \<open>new Date('2024-03-31 02:30:00')\<close> and \<open>new Date('2024-03-31 03:30:00')\<close> are the same
  instant, 01:30 UTC. The table gives \<open>getTime()\<close>, in milliseconds, of the three
  timestamps of the store below.
\<close>

definition berlin_getTime :: "string \<Rightarrow> int option" where
  "berlin_getTime = map_of
     [(''2024-03-31 01:30:00'', 1711845000000),
      (''2024-03-31 02:30:00'', 1711848600000),
      (''2024-03-31 03:30:00'', 1711848600000)]"

definition dst_db :: db where
  "dst_db =
     \<lparr>tasks = [], reminders = [],
      send_logs =
        [\<lparr>sl_id = 1, sl_kind = ''reminder'', sl_source = Some ''cron'',
          sl_channel_id = Some ''general'', sl_user_id = Some ''u1'',
          sl_content = Some ''drink water'', sl_status = ''sent'', sl_error = None,
          sl_message_id = Some ''9001'', sl_ref_id = Some 1, sl_retry_count = 0,
          sl_sent_at = ''2024-03-31 03:30:00''\<rparr>],
      activity_logs =
        [\<lparr>al_id = 1, al_kind = ''activity:reminder_added'', al_source = Some ''discord_slash'',
          al_channel_id = Some ''general'', al_user_id = Some ''u1'',
          al_status = Some ''success'', al_error = None, al_message_id = None,
          al_ref_id = None, al_action = Some ''add_reminder'', al_emoji = None,
          al_metadata = None, al_created_at = ''2024-03-31 01:30:00''\<rparr>,
         \<lparr>al_id = 2, al_kind = ''activity:task_added'', al_source = Some ''discord_slash'',
          al_channel_id = Some ''general'', al_user_id = Some ''u1'',
          al_status = Some ''success'', al_error = None, al_message_id = None,
          al_ref_id = None, al_action = Some ''add_task'', al_emoji = None,
          al_metadata = None, al_created_at = ''2024-03-31 02:30:00''\<rparr>],
      log_rotation = [], seq_tasks = 0, seq_reminders = 0, seq_send_logs = 1,
      seq_activity_logs = 2, seq_log_rotation = 0\<rparr>"

definition paged_db :: db where
  "paged_db =
     \<lparr>tasks = [], reminders = [],
      send_logs =
        [\<lparr>sl_id = 1, sl_kind = ''reminder'', sl_source = Some ''cron'',
          sl_channel_id = Some ''general'', sl_user_id = Some ''u1'',
          sl_content = Some ''drink water'', sl_status = ''sent'', sl_error = None,
          sl_message_id = Some ''9001'', sl_ref_id = Some 1, sl_retry_count = 0,
          sl_sent_at = ''2024-01-15 09:00:00''\<rparr>,
         \<lparr>sl_id = 2, sl_kind = ''task'', sl_source = Some ''cron'',
          sl_channel_id = Some ''general'', sl_user_id = Some ''u1'',
          sl_content = Some ''standup'', sl_status = ''failed'',
          sl_error = Some ''Missing Access'', sl_message_id = None, sl_ref_id = Some 4,
          sl_retry_count = 0, sl_sent_at = ''2024-01-15 09:05:00''\<rparr>],
      activity_logs =
        [\<lparr>al_id = 1, al_kind = ''activity:task_added'', al_source = Some ''discord_slash'',
          al_channel_id = Some ''general'', al_user_id = Some ''u1'',
          al_status = Some ''success'', al_error = None, al_message_id = None,
          al_ref_id = Some 4, al_action = Some ''add_task'', al_emoji = None,
          al_metadata = None, al_created_at = ''2024-01-15 09:02:00''\<rparr>],
      log_rotation = [], seq_tasks = 0, seq_reminders = 0, seq_send_logs = 2,
      seq_activity_logs = 1, seq_log_rotation = 0\<rparr>"

section \<open>Properties\<close>

subsection \<open>Decimal round trip\<close>

lemma of_char_digit_char: "d < 10 \<Longrightarrow> (of_char (digit_char d) :: nat) = 48 + d"
  by (simp add: digit_char_def)

lemma digit_char_is_digit: "d < 10 \<Longrightarrow> is_digit (digit_char d)"
  by (simp add: is_digit_def of_char_digit_char)

lemma digit_val_digit_char: "d < 10 \<Longrightarrow> digit_val (digit_char d) = d"
  by (simp add: digit_val_def of_char_digit_char)

lemma string_of_nat_digits: "list_all is_digit (string_of_nat n)"
proof (induction n rule: string_of_nat.induct)
  case (1 n)
  show ?case
  proof (cases "n < 10")
    case True
    then show ?thesis by (subst string_of_nat.simps) (simp add: digit_char_is_digit)
  next
    case False
    with 1 show ?thesis by (subst string_of_nat.simps) (simp add: digit_char_is_digit)
  qed
qed

lemma string_of_nat_nonempty: "string_of_nat n \<noteq> []"
  by (subst string_of_nat.simps) simp

lemma digits_value_snoc: "digits_value (ds @ [c]) = digits_value ds * 10 + int (digit_val c)"
  by (simp add: digits_value_def)

lemma digits_value_string_of_nat: "digits_value (string_of_nat n) = int n"
proof (induction n rule: string_of_nat.induct)
  case (1 n)
  show ?case
  proof (cases "n < 10")
    case True
    then show ?thesis
      by (subst string_of_nat.simps) (simp add: digits_value_def digit_val_digit_char)
  next
    case False
    have "int (n div 10 * 10 + n mod 10) = int n" by simp
    then have e: "int (n div 10) * 10 + int (n mod 10) = int n"
      by (simp only: of_nat_add of_nat_mult of_nat_numeral)
    from False 1 have "digits_value (string_of_nat (n div 10)) = int (n div 10)" by simp
    with False e show ?thesis
      by (subst string_of_nat.simps) (simp add: digits_value_snoc digit_val_digit_char)
  qed
qed

lemma is_digit_facts:
  assumes "is_digit c"
  shows "\<not> is_space c" "c \<noteq> CHR ''-''" "c \<noteq> CHR ''+''" "c \<noteq> CHR ''_''" "c \<noteq> CHR ''x''" "c \<noteq> CHR ''X''"
  using assms by (auto simp: is_digit_def is_space_def)

lemma takeWhile_all: "list_all P xs \<Longrightarrow> takeWhile P xs = xs"
  by (induction xs) auto

lemma parseInt_digits:
  assumes "list_all is_digit ds" "ds \<noteq> []"
  shows "parseInt ds = Some (to_double (digits_value ds))"
proof -
  from assms obtain c cs where ds: "ds = c # cs" by (cases ds) auto
  with assms have c: "is_digit c" and cs: "list_all is_digit cs" by simp_all
  have nothex: "take 2 ds \<noteq> ''0x''" "take 2 ds \<noteq> ''0X''"
  proof -
    show "take 2 ds \<noteq> ''0x''"
    proof (cases cs)
      case Nil with ds show ?thesis by simp
    next
      case (Cons e es)
      with cs have "is_digit e" by simp
      with is_digit_facts(5)[OF this] ds Cons show ?thesis by auto
    qed
    show "take 2 ds \<noteq> ''0X''"
    proof (cases cs)
      case Nil with ds show ?thesis by simp
    next
      case (Cons e es)
      with cs have "is_digit e" by simp
      with is_digit_facts(6)[OF this] ds Cons show ?thesis by auto
    qed
  qed
  have dw: "dropWhile is_space ds = ds" using ds is_digit_facts(1)[OF c] by simp
  have tw: "takeWhile is_digit ds = ds" using assms(1) by (rule takeWhile_all)
  have hex: "(take 2 ds = ''0x'' \<or> take 2 ds = ''0X'') = False" using nothex by simp
  have sign: "(case ds of
                 c # r \<Rightarrow> if c = CHR ''-'' then (True, r)
                          else if c = CHR ''+'' then (False, r) else (False, ds)
               | [] \<Rightarrow> (False, ds)) = (False, ds)"
    using ds is_digit_facts(2,3)[OF c] by simp
  show ?thesis
    unfolding parseInt_def Let_def dw sign
    by (simp only: prod.case hex if_False tw assms(2))
qed

lemma to_double_exact: "\<bar>n\<bar> < 2 ^ 53 \<Longrightarrow> to_double n = n"
  by (simp add: to_double_def)

lemma parseInt_string_of_nat: "int n < 2 ^ 53 \<Longrightarrow> parseInt (string_of_nat n) = Some (int n)"
  using parseInt_digits[OF string_of_nat_digits string_of_nat_nonempty, of n]
  by (simp add: digits_value_string_of_nat to_double_exact)

lemma parseInt_minus_digits:
  assumes "list_all is_digit ds" "ds \<noteq> []"
  shows "parseInt (CHR ''-'' # ds) = Some (to_double (- digits_value ds))"
proof -
  from assms obtain c cs where ds: "ds = c # cs" by (cases ds) auto
  with assms have c: "is_digit c" and cs: "list_all is_digit cs" by simp_all
  have nothex: "(take 2 ds = ''0x'' \<or> take 2 ds = ''0X'') = False"
  proof (cases cs)
    case Nil with ds show ?thesis by simp
  next
    case (Cons e es)
    with cs have "is_digit e" by simp
    with is_digit_facts(5,6)[OF this] ds Cons show ?thesis by auto
  qed
  have dw: "dropWhile is_space (CHR ''-'' # ds) = CHR ''-'' # ds" by (simp add: is_space_def)
  have tw: "takeWhile is_digit ds = ds" using assms(1) by (rule takeWhile_all)
  have sign: "(case CHR ''-'' # ds of
                 c # r \<Rightarrow> if c = CHR ''-'' then (True, r)
                          else if c = CHR ''+'' then (False, r) else (False, CHR ''-'' # ds)
               | [] \<Rightarrow> (False, CHR ''-'' # ds)) = (True, ds)"
    by simp
  show ?thesis
    unfolding parseInt_def Let_def dw sign
    by (simp only: prod.case nothex if_False if_True tw assms(2))
qed

lemma parseInt_string_of_int: "\<bar>i\<bar> < 2 ^ 53 \<Longrightarrow> parseInt (string_of_int i) = Some i"
proof (cases "i < 0")
  case True
  assume "\<bar>i\<bar> < 2 ^ 53"
  with True show ?thesis
    using parseInt_minus_digits[OF string_of_nat_digits string_of_nat_nonempty, of "nat (- i)"]
    by (simp add: string_of_int_def digits_value_string_of_nat to_double_exact)
next
  case False
  assume "\<bar>i\<bar> < 2 ^ 53"
  with False show ?thesis by (simp add: string_of_int_def parseInt_string_of_nat)
qed

lemma string_of_int_no_underscore: "CHR ''_'' \<notin> set (string_of_int i)"
proof -
  have "CHR ''_'' \<notin> set (string_of_nat n)" for n
    using string_of_nat_digits[of n] is_digit_facts(4) by (auto simp: list_all_iff)
  then show ?thesis by (simp add: string_of_int_def)
qed

lemma string_of_nat_inj:
  assumes "string_of_nat m = string_of_nat n"
  shows "m = n"
proof -
  have "int m = digits_value (string_of_nat m)" by (simp only: digits_value_string_of_nat)
  also have "\<dots> = digits_value (string_of_nat n)" by (simp only: assms)
  also have "\<dots> = int n" by (simp only: digits_value_string_of_nat)
  finally show ?thesis by simp
qed

lemma string_of_nat_no_minus: "string_of_nat n \<noteq> CHR ''-'' # r"
proof
  assume "string_of_nat n = CHR ''-'' # r"
  with string_of_nat_digits[of n] have "is_digit (CHR ''-'')" by simp
  then show False by (simp add: is_digit_def)
qed

lemma string_of_int_inj: "string_of_int i = string_of_int j \<Longrightarrow> i = j"
  using string_of_nat_no_minus[of "nat i" "string_of_nat (nat (- j))"]
    string_of_nat_no_minus[of "nat j" "string_of_nat (nat (- i))"]
    string_of_nat_inj[of "nat i" "nat j"] string_of_nat_inj[of "nat (- i)" "nat (- j)"]
  by (auto simp: string_of_int_def split: if_splits)

subsection \<open>Retry\<close>

lemmas js_value_defs = or_null_def or_null_num_def or_default_def or_zero_def

lemmas parseInt_defs = parseInt_def to_double_def is_space_def is_digit_def digits_value_def digit_val_def

lemma send_once_ok:
  assumes "send_once w now tok c ch d = (Response code b, d')" "200 \<le> code" "code < 300"
  shows "\<exists>e. d' = d\<lparr>send_logs := send_logs d @ [e], seq_send_logs := seq_send_logs d + 1\<rparr>
     \<and> sl_kind e = ''send_once'' \<and> sl_ref_id e = None \<and> sl_retry_count e = 0"
  using assms
  by (auto simp: send_once_def logSend_def no_data_def js_value_defs
      split: if_splits sum.splits)

lemma call_bot_ok:
  assumes "call_bot w now c ch d = (Response 200 b, d')"
  shows "\<exists>e. d' = d\<lparr>send_logs := send_logs d @ [e], seq_send_logs := seq_send_logs d + 1\<rparr>
     \<and> sl_kind e = ''send_once'' \<and> sl_ref_id e = None \<and> sl_retry_count e = 0"
proof -
  from assms obtain code r
    where s: "send_once w now (forwarded_token w) c ch d = (Response code r, d')"
      and c: "200 \<le> code" "code < 300"
    by (auto simp: call_bot_def split: if_splits prod.splits response.splits)
  from send_once_ok[OF s c] show ?thesis .
qed

lemma retry_ok:
  assumes "retry w now token id_param d = (Response 200 b, d')"
  shows "\<exists>c ch. call_bot w now c ch d = (Response 200 b, d')"
  using assms unfolding retry_def
  by (auto split: if_splits option.splits)

lemma retry_example:
  "retry example_world ''2024-01-16 10:00:00'' (Some ''secret'') ''1'' retry_db =
     (Response 200 (JObject [(''message'', JString ''Retry sent successfully''),
        (''result'', JObject [(''message'', JString ''Message sent''),
                              (''message_id'', JString ''9001'')])]),
      retry_db\<lparr>send_logs := [failed_task_log,
         \<lparr>sl_id = 2, sl_kind = ''send_once'', sl_source = Some ''http_api'',
          sl_channel_id = Some ''general'', sl_user_id = None,
          sl_content = Some (task_message ''standup''),
          sl_status = ''sent'', sl_error = None, sl_message_id = Some ''9001'',
          sl_ref_id = None, sl_retry_count = 0, sl_sent_at = ''2024-01-16 10:00:00''\<rparr>],
        seq_send_logs := 2\<rparr>)"
  by (simp add: retry_def token_matches_def example_world_def retry_db_def empty_db_def
      failed_task_log_def standup_task_def parseInt_defs js_value_defs call_bot_def
      send_once_def forwarded_token_def task_message_def logSend_def no_data_def)

text \<open>
  Claim C10. Every successful retry (the dashboard answers 200) has appended one
  send-log entry whose kind is \<open>send_once\<close>, whose \<open>ref_id\<close> is NULL and whose
  \<open>retry_count\<close> is 0, whatever the kind and \<open>ref_id\<close> of the failed entry were: the
  replay goes through the bot's \<open>/send-once\<close>.
\<close>

theorem retry_logs_send_once:
  assumes "retry w now token id_param d = (Response 200 b, d')"
  shows "\<exists>e. send_logs d' = send_logs d @ [e] \<and> sl_kind e = ''send_once''
           \<and> sl_ref_id e = None \<and> sl_retry_count e = 0"
proof -
  from retry_ok[OF assms] obtain c ch where "call_bot w now c ch d = (Response 200 b, d')"
    by blast
  from call_bot_ok[OF this] show ?thesis by auto
qed

theorem retry_logs_send_once_witness:
  "\<exists>b d'. retry example_world ''2024-01-16 10:00:00'' (Some ''secret'') ''1'' retry_db
             = (Response 200 b, d')
     \<and> (\<exists>e. send_logs d' = send_logs retry_db @ [e] \<and> sl_kind e = ''send_once''
           \<and> sl_ref_id e = None \<and> sl_retry_count e = 0)"
  using retry_logs_send_once[OF retry_example] retry_example by blast

lemma retry_200_appends:
  assumes "retry w now token id_param d = (Response 200 b, d')"
  shows "\<exists>e. d' = d\<lparr>send_logs := send_logs d @ [e], seq_send_logs := seq_send_logs d + 1\<rparr>"
proof -
  from retry_ok[OF assms] obtain c ch where "call_bot w now c ch d = (Response 200 b, d')"
    by blast
  from call_bot_ok[OF this] show ?thesis by blast
qed

lemma find_none_iff_no_row: "(find P xs = None) = (\<forall>x\<in>set xs. \<not> P x)"
  by (induction xs) auto

text \<open>
  Claim C5. Take a request that carries the token the dashboard is configured with, and
  let \<open>logId\<close> be the number \<open>parseInt\<close> reads from the id of the path. When no send-log
  row has that id and status \<open>failed\<close>, retry answers 404; when the row's kind is neither
  \<open>task\<close> nor \<open>reminder\<close>, or its \<open>ref_id\<close> is missing, it answers 400; when the
  referenced reminder or task row is gone, it answers 404; and in each of these cases the
  store is returned unchanged. A retry that answers 200 has appended exactly one
  send-log row and changed nothing else, so the failed row is still there as it was.
\<close>

theorem retry_failures_write_nothing:
  assumes hdr: "token = Some t"
    and env: "dash_LOGS_TOKEN w = Some t"
    and num: "parseInt id_param = Some logId"
  shows "((\<forall>l\<in>set (send_logs d). \<not> (sl_id l = logId \<and> sl_status l = ''failed'')) \<longrightarrow>
            retry w now token id_param d =
              (Response 404 (JObject [(''error'', JString ''Failed log entry not found'')]), d))
       \<and> (\<forall>log. find (\<lambda>l. sl_id l = logId \<and> sl_status l = ''failed'') (send_logs d) = Some log
            \<longrightarrow>
            (sl_kind log \<noteq> ''reminder'' \<and> sl_kind log \<noteq> ''task'' \<longrightarrow>
               retry w now token id_param d =
                 (Response 400 (JObject [(''error'', JString ''Cannot retry this type of log entry'')]), d))
          \<and> ((sl_kind log = ''reminder'' \<or> sl_kind log = ''task'')
               \<and> (sl_ref_id log = None \<or> sl_ref_id log = Some 0) \<longrightarrow>
               retry w now token id_param d =
                 (Response 400 (JObject [(''error'', JString ''Cannot retry: missing reference ID'')]), d))
          \<and> (\<forall>ref. sl_kind log = ''reminder'' \<and> sl_ref_id log = Some ref \<and> ref \<noteq> 0
                 \<and> (\<forall>r\<in>set (reminders d). r_id r \<noteq> ref) \<longrightarrow>
               retry w now token id_param d =
                 (Response 404 (JObject [(''error'', JString ''Original reminder not found'')]), d))
          \<and> (\<forall>ref. sl_kind log = ''task'' \<and> sl_ref_id log = Some ref \<and> ref \<noteq> 0
                 \<and> (\<forall>t\<in>set (tasks d). t_id t \<noteq> ref) \<longrightarrow>
               retry w now token id_param d =
                 (Response 404 (JObject [(''error'', JString ''Original task not found'')]), d)))
       \<and> (\<forall>b d'. retry w now token id_param d = (Response 200 b, d') \<longrightarrow>
            (\<exists>e. d' = d\<lparr>send_logs := send_logs d @ [e],
                          seq_send_logs := seq_send_logs d + 1\<rparr>))"
proof (intro conjI allI impI)
  have auth: "token_matches token (dash_LOGS_TOKEN w)"
    using hdr env by (simp add: token_matches_def)
  {
    assume "\<forall>l\<in>set (send_logs d). \<not> (sl_id l = logId \<and> sl_status l = ''failed'')"
    then have "find (\<lambda>l. sl_id l = logId \<and> sl_status l = ''failed'') (send_logs d) = None"
      by (simp add: find_none_iff_no_row)
    then show "retry w now token id_param d =
        (Response 404 (JObject [(''error'', JString ''Failed log entry not found'')]), d)"
      using auth num by (simp add: retry_def)
  }
  {
    fix log
    assume "find (\<lambda>l. sl_id l = logId \<and> sl_status l = ''failed'') (send_logs d) = Some log"
      and "sl_kind log \<noteq> ''reminder'' \<and> sl_kind log \<noteq> ''task''"
    then show "retry w now token id_param d =
        (Response 400 (JObject [(''error'', JString ''Cannot retry this type of log entry'')]), d)"
      using auth num by (simp add: retry_def)
  }
  {
    fix log
    assume "find (\<lambda>l. sl_id l = logId \<and> sl_status l = ''failed'') (send_logs d) = Some log"
      and "(sl_kind log = ''reminder'' \<or> sl_kind log = ''task'')
           \<and> (sl_ref_id log = None \<or> sl_ref_id log = Some 0)"
    then show "retry w now token id_param d =
        (Response 400 (JObject [(''error'', JString ''Cannot retry: missing reference ID'')]), d)"
      using auth num by (auto simp: retry_def or_null_num_def)
  }
  {
    fix log ref
    assume "find (\<lambda>l. sl_id l = logId \<and> sl_status l = ''failed'') (send_logs d) = Some log"
      and "sl_kind log = ''reminder'' \<and> sl_ref_id log = Some ref \<and> ref \<noteq> 0
           \<and> (\<forall>r\<in>set (reminders d). r_id r \<noteq> ref)"
    moreover from this have "find (\<lambda>r. r_id r = ref) (reminders d) = None"
      by (simp add: find_none_iff_no_row)
    ultimately show "retry w now token id_param d =
        (Response 404 (JObject [(''error'', JString ''Original reminder not found'')]), d)"
      using auth num by (simp add: retry_def or_null_num_def)
  }
  {
    fix log ref
    assume "find (\<lambda>l. sl_id l = logId \<and> sl_status l = ''failed'') (send_logs d) = Some log"
      and "sl_kind log = ''task'' \<and> sl_ref_id log = Some ref \<and> ref \<noteq> 0
           \<and> (\<forall>t\<in>set (tasks d). t_id t \<noteq> ref)"
    moreover from this have "find (\<lambda>t. t_id t = ref) (tasks d) = None"
      by (simp add: find_none_iff_no_row)
    ultimately show "retry w now token id_param d =
        (Response 404 (JObject [(''error'', JString ''Original task not found'')]), d)"
      using auth num by (simp add: retry_def or_null_num_def)
  }
  {
    fix b d'
    assume "retry w now token id_param d = (Response 200 b, d')"
    then show "\<exists>e. d' = d\<lparr>send_logs := send_logs d @ [e], seq_send_logs := seq_send_logs d + 1\<rparr>"
      by (rule retry_200_appends)
  }
qed

theorem retry_failures_write_nothing_witness:
  "dash_LOGS_TOKEN example_world = Some ''secret'' \<and> parseInt ''7'' = Some 7
   \<and> retry example_world ''2024-01-16 10:00:00'' (Some ''secret'') ''7'' retry_db =
       (Response 404 (JObject [(''error'', JString ''Failed log entry not found'')]), retry_db)
   \<and> parseInt ''1'' = Some 1
   \<and> (\<exists>e. snd (retry example_world ''2024-01-16 10:00:00'' (Some ''secret'') ''1'' retry_db) =
          retry_db\<lparr>send_logs := send_logs retry_db @ [e],
                    seq_send_logs := seq_send_logs retry_db + 1\<rparr>)"
proof -
  have a: "dash_LOGS_TOKEN example_world = Some ''secret''"
    by (simp add: example_world_def)
  have p7: "parseInt ''7'' = Some 7" by (simp add: parseInt_defs)
  have p1: "parseInt ''1'' = Some 1" by (simp add: parseInt_defs)
  have none: "\<forall>l\<in>set (send_logs retry_db). \<not> (sl_id l = 7 \<and> sl_status l = ''failed'')"
    by (simp add: retry_db_def empty_db_def failed_task_log_def)
  note t7 = retry_failures_write_nothing[OF refl a p7, of retry_db "''2024-01-16 10:00:00''"]
  from conjunct1[OF t7, THEN mp, OF none]
  have r7: "retry example_world ''2024-01-16 10:00:00'' (Some ''secret'') ''7'' retry_db =
       (Response 404 (JObject [(''error'', JString ''Failed log entry not found'')]), retry_db)" .
  note t = retry_failures_write_nothing[OF refl a p1, of retry_db "''2024-01-16 10:00:00''"]
  from conjunct2[OF conjunct2[OF t], rule_format, OF retry_example]
  have r1: "\<exists>e. snd (retry example_world ''2024-01-16 10:00:00'' (Some ''secret'') ''1'' retry_db) =
          retry_db\<lparr>send_logs := send_logs retry_db @ [e],
                    seq_send_logs := seq_send_logs retry_db + 1\<rparr>"
    by (simp add: retry_example)
  from a p7 r7 p1 r1 show ?thesis by blast
qed

subsection \<open>The scheduler registry\<close>

lemma registry_okD:
  "registry_ok b \<Longrightarrow> h < length (jobs b) \<Longrightarrow> j_running (jobs b ! h) \<Longrightarrow>
   map_of (cronJobs b) (job_key (jobs b ! h)) = Some h"
  by (simp add: registry_ok_def list_all_iff)

lemma registry_okI:
  "(\<And>h. h < length (jobs b) \<Longrightarrow> j_running (jobs b ! h) \<Longrightarrow>
     map_of (cronJobs b) (job_key (jobs b ! h)) = Some h) \<Longrightarrow> registry_ok b"
  by (simp add: registry_ok_def list_all_iff)

lemma live_triggers_iff:
  "h \<in> set (live_triggers b k) \<longleftrightarrow> h < length (jobs b) \<and> j_running (jobs b ! h) \<and> job_key (jobs b ! h) = k"
  by (auto simp: live_triggers_def)

lemma filter_upt_le_one:
  assumes "\<And>i j. i < n \<Longrightarrow> j < n \<Longrightarrow> P i \<Longrightarrow> P j \<Longrightarrow> i = j"
  shows "length (filter P [0..<n]) \<le> 1"
proof -
  have d: "distinct (filter P [0..<n])" by simp
  have "\<forall>a\<in>set (filter P [0..<n]). \<forall>b\<in>set (filter P [0..<n]). a = b"
    using assms by auto
  then have "card (set (filter P [0..<n])) \<le> Suc 0"
    using card_le_Suc0_iff_eq[of "set (filter P [0..<n])"] by simp
  then show ?thesis by (simp only: distinct_card[OF d] One_nat_def)
qed

lemma registry_ok_at_most_one:
  assumes "registry_ok b"
  shows "length (live_triggers b k) \<le> 1"
  unfolding live_triggers_def
proof (rule filter_upt_le_one)
  fix i j
  assume i: "i < length (jobs b)" and j: "j < length (jobs b)"
    and pi: "j_running (jobs b ! i) \<and> job_key (jobs b ! i) = k"
    and pj: "j_running (jobs b ! j) \<and> job_key (jobs b ! j) = k"
  from registry_okD[OF assms i] pi have "map_of (cronJobs b) k = Some i" by blast
  moreover from registry_okD[OF assms j] pj have "map_of (cronJobs b) k = Some j" by blast
  ultimately show "i = j" by simp
qed

lemma job_key_reminder: "job_key \<lparr>j_kind = ''reminder'', j_id = i, j_content = c,
   j_channelId = ch, j_userId = u, j_time = t, j_days = dd, j_running = r\<rparr> = reminder_key i"
  by (simp add: job_key_def reminder_key_def)

lemma job_key_task: "job_key \<lparr>j_kind = ''task'', j_id = i, j_content = c,
   j_channelId = ch, j_userId = u, j_time = t, j_days = dd, j_running = r\<rparr> = task_key i"
  by (simp add: job_key_def task_key_def)

lemma register_fresh_ok:
  assumes ok: "registry_ok b" and fresh: "live_triggers b (job_key j) = []" and run: "j_running j"
  shows "registry_ok (b\<lparr>jobs := jobs b @ [j],
            cronJobs := AList.update (job_key j) (length (jobs b)) (cronJobs b)\<rparr>)"
proof (rule registry_okI)
  fix h
  let ?b' = "b\<lparr>jobs := jobs b @ [j], cronJobs := AList.update (job_key j) (length (jobs b)) (cronJobs b)\<rparr>"
  assume h: "h < length (jobs ?b')" and r: "j_running (jobs ?b' ! h)"
  show "map_of (cronJobs ?b') (job_key (jobs ?b' ! h)) = Some h"
  proof (cases "h < length (jobs b)")
    case True
    with r have rr: "j_running (jobs b ! h)" by (simp add: nth_append)
    have "job_key (jobs b ! h) \<noteq> job_key j"
    proof
      assume "job_key (jobs b ! h) = job_key j"
      with True rr have "h \<in> set (live_triggers b (job_key j))" by (simp add: live_triggers_iff)
      with fresh show False by simp
    qed
    with registry_okD[OF ok True rr] True show ?thesis
      by (simp add: nth_append update_conv')
  next
    case False
    with h have "h = length (jobs b)" by simp
    then show ?thesis by (simp add: update_conv')
  qed
qed

lemma register_live:
  assumes run: "j_running j"
  shows "live_triggers (b\<lparr>jobs := jobs b @ [j], cronJobs := cj\<rparr>) k =
         live_triggers b k @ (if job_key j = k then [length (jobs b)] else [])"
proof -
  have "filter (\<lambda>h. j_running ((jobs b @ [j]) ! h) \<and> job_key ((jobs b @ [j]) ! h) = k) [0..<length (jobs b)]
      = filter (\<lambda>h. j_running (jobs b ! h) \<and> job_key (jobs b ! h) = k) [0..<length (jobs b)]"
    by (rule filter_cong) (auto simp: nth_append)
  then show ?thesis using run by (simp add: live_triggers_def)
qed

lemma unschedule_ok:
  assumes ok: "registry_ok b"
  shows "registry_ok (unschedule k b)"
proof (cases "map_of (cronJobs b) k")
  case None
  then show ?thesis using ok by (simp add: unschedule_def)
next
  case (Some h0)
  let ?b' = "b\<lparr>jobs := (jobs b)[h0 := (jobs b ! h0)\<lparr>j_running := False\<rparr>],
                    cronJobs := AList.delete k (cronJobs b)\<rparr>"
  have "registry_ok ?b'"
  proof (rule registry_okI)
    fix h
    assume h: "h < length (jobs ?b')" and r: "j_running (jobs ?b' ! h)"
    then have ne: "h \<noteq> h0" by (auto simp: nth_list_update)
    with h r have hb: "h < length (jobs b)" and rb: "j_running (jobs b ! h)" by simp_all
    from registry_okD[OF ok hb rb] have m: "map_of (cronJobs b) (job_key (jobs b ! h)) = Some h" .
    with Some ne have "job_key (jobs b ! h) \<noteq> k" by auto
    with m ne show "map_of (cronJobs ?b') (job_key (jobs ?b' ! h)) = Some h"
      by (simp add: delete_conv')
  qed
  with Some show ?thesis by (simp add: unschedule_def)
qed

lemma unschedule_live:
  assumes ok: "registry_ok b"
  shows "live_triggers (unschedule k b) k = []"
proof -
  have "\<not> (h \<in> set (live_triggers (unschedule k b) k))" for h
  proof
    assume "h \<in> set (live_triggers (unschedule k b) k)"
    then have h: "h < length (jobs (unschedule k b))" "j_running (jobs (unschedule k b) ! h)"
       "job_key (jobs (unschedule k b) ! h) = k" by (simp_all add: live_triggers_iff)
    from registry_okD[OF unschedule_ok[OF ok] h(1) h(2)] h(3)
    have "map_of (cronJobs (unschedule k b)) k = Some h" by simp
    moreover have "map_of (cronJobs (unschedule k b)) k = None \<or> map_of (cronJobs b) k = None"
      by (cases "map_of (cronJobs b) k") (simp_all add: unschedule_def delete_conv')
    moreover have "map_of (cronJobs b) k = None \<Longrightarrow> unschedule k b = b" by (simp add: unschedule_def)
    ultimately show False by auto
  qed
  then show ?thesis by (cases "live_triggers (unschedule k b) k") auto
qed

lemma sched_step_ok:
  assumes "registry_ok b" "fresh_op x b"
  shows "registry_ok (sched_step w x b)"
proof (cases x)
  case (RegisterReminder i c ch u t)
  with assms show ?thesis
    using register_fresh_ok[of b "\<lparr>j_kind = ''reminder'', j_id = i, j_content = c,
                    j_channelId = ch, j_userId = u, j_time = t,
                    j_days = None, j_running = True\<rparr>"]
    by (auto simp: scheduleReminder_def job_key_reminder split: option.splits)
next
  case (RegisterTask i c ch u t ds)
  with assms show ?thesis
    using register_fresh_ok[of b "\<lparr>j_kind = ''task'', j_id = i, j_content = c,
                    j_channelId = ch, j_userId = u, j_time = t,
                    j_days = or_null ds, j_running = True\<rparr>"]
    by (auto simp: scheduleTask_def job_key_task split: option.splits)
next
  case (Unregister k)
  with assms show ?thesis by (simp add: unschedule_ok)
qed

lemma sched_run_ok:
  "registry_ok b \<Longrightarrow> registers_fresh w xs b \<Longrightarrow> registry_ok (sched_run w xs b)"
  by (induction xs arbitrary: b) (auto simp: sched_step_ok)

lemma scheduleReminder_result:
  assumes "scheduleReminder w i c ch u t b = Inr b'"
  shows "b' = b\<lparr>jobs := jobs b @ [\<lparr>j_kind = ''reminder'', j_id = i, j_content = c,
                    j_channelId = ch, j_userId = u, j_time = t, j_days = None,
                    j_running = True\<rparr>],
                 cronJobs := AList.update (reminder_key i) (length (jobs b)) (cronJobs b)\<rparr>"
  using assms by (auto simp: scheduleReminder_def split: option.splits)

lemma scheduleTask_result:
  assumes "scheduleTask w i c ch u t ds b = Inr b'"
  shows "b' = b\<lparr>jobs := jobs b @ [\<lparr>j_kind = ''task'', j_id = i, j_content = c,
                    j_channelId = ch, j_userId = u, j_time = t, j_days = or_null ds,
                    j_running = True\<rparr>],
                 cronJobs := AList.update (task_key i) (length (jobs b)) (cronJobs b)\<rparr>"
  using assms by (auto simp: scheduleTask_def split: option.splits)

lemma reregister_keeps_old:
  assumes "scheduleReminder w i c ch u t b = Inr b'"
  shows "map_of (cronJobs b') (reminder_key i) = Some (length (jobs b))
     \<and> take (length (jobs b)) (jobs b') = jobs b
     \<and> live_triggers b' (reminder_key i) = live_triggers b (reminder_key i) @ [length (jobs b)]"
  unfolding scheduleReminder_result[OF assms]
  by (simp add: register_live job_key_reminder update_conv')

lemma reregister_task_keeps_old:
  assumes "scheduleTask w i c ch u t ds b = Inr b'"
  shows "map_of (cronJobs b') (task_key i) = Some (length (jobs b))
     \<and> take (length (jobs b)) (jobs b') = jobs b
     \<and> live_triggers b' (task_key i) = live_triggers b (task_key i) @ [length (jobs b)]"
  unfolding scheduleTask_result[OF assms]
  by (simp add: register_live job_key_task update_conv')

lemma sched_step_distinct:
  "distinct (map fst (cronJobs b)) \<Longrightarrow> distinct (map fst (cronJobs (sched_step w x b)))"
  by (cases x)
     (auto simp: scheduleReminder_def scheduleTask_def unschedule_def distinct_update
        distinct_delete split: option.splits)

lemma sched_run_distinct:
  "distinct (map fst (cronJobs b)) \<Longrightarrow> distinct (map fst (cronJobs (sched_run w xs b)))"
  by (induction xs arbitrary: b) (simp_all add: sched_step_distinct)

lemma sched_run_append: "sched_run w (xs @ ys) b = sched_run w ys (sched_run w xs b)"
  by (induction xs arbitrary: b) simp_all

lemma schedule_reminders_run:
  "schedule_reminders w rs b = Inr b' \<Longrightarrow>
   b' = sched_run w (map (\<lambda>r. RegisterReminder (Some (r_id r)) (r_content r) (r_channel_id r)
                              (r_user_id r) (r_time r)) rs) b"
  by (induction rs arbitrary: b) (auto split: sum.splits)

lemma schedule_tasks_run:
  "schedule_tasks w ts b = Inr b' \<Longrightarrow>
   b' = sched_run w (map (\<lambda>t. RegisterTask (Some (t_id t)) (t_content t) (t_channel_id t)
                              (t_user_id t) (t_time t) (t_days t)) ts) b"
  by (induction ts arbitrary: b) (auto split: sum.splits)

lemma loadScheduledItems_run:
  assumes "loadScheduledItems w b = Inr b'"
  shows "b' = sched_run w (rebuild_ops (store b)) b"
proof -
  from assms obtain b1 where r: "schedule_reminders w (reminders (store b)) b = Inr b1"
    and t: "schedule_tasks w (tasks (store b)) b1 = Inr b'"
    by (auto simp: loadScheduledItems_def split: sum.splits)
  from schedule_reminders_run[OF r] schedule_tasks_run[OF t]
  show ?thesis by (simp add: rebuild_ops_def sched_run_append)
qed

text \<open>The keys of rows with different ids differ, and so do the keys of the two kinds.\<close>

lemma reminder_key_inj: "reminder_key (Some i) = reminder_key (Some j) \<Longrightarrow> i = j"
  by (simp add: reminder_key_def id_text_def string_of_int_inj)

lemma task_key_inj: "task_key (Some i) = task_key (Some j) \<Longrightarrow> i = j"
  by (simp add: task_key_def id_text_def string_of_int_inj)

lemma reminder_key_not_task_key: "reminder_key i \<noteq> task_key j"
  by (simp add: reminder_key_def task_key_def)

lemma register_reminder_other:
  "k \<noteq> reminder_key i \<Longrightarrow>
   live_triggers (sched_step w (RegisterReminder i c ch u t) b) k = live_triggers b k"
  by (auto simp: scheduleReminder_def register_live job_key_reminder split: option.splits)

lemma register_task_other:
  "k \<noteq> task_key i \<Longrightarrow>
   live_triggers (sched_step w (RegisterTask i c ch u t ds) b) k = live_triggers b k"
  by (auto simp: scheduleTask_def register_live job_key_task split: option.splits)

lemma distinct_map_head: "distinct (map f (x # xs)) \<Longrightarrow> t \<in> set xs \<Longrightarrow> f t \<noteq> f x"
  by (auto simp: image_iff)

lemma register_tasks_fresh:
  assumes "distinct (map t_id ts)"
    and "\<forall>t\<in>set ts. live_triggers b (task_key (Some (t_id t))) = []"
  shows "registers_fresh w
           (map (\<lambda>t. RegisterTask (Some (t_id t)) (t_content t) (t_channel_id t) (t_user_id t)
                        (t_time t) (t_days t)) ts) b"
  using assms
proof (induction ts arbitrary: b)
  case Nil
  then show ?case by simp
next
  case (Cons x xs)
  let ?b1 = "sched_step w (RegisterTask (Some (t_id x)) (t_content x) (t_channel_id x)
                             (t_user_id x) (t_time x) (t_days x)) b"
  have "\<forall>t\<in>set xs. live_triggers ?b1 (task_key (Some (t_id t))) = []"
  proof
    fix t assume t: "t \<in> set xs"
    from distinct_map_head[OF Cons.prems(1) t] have "t_id t \<noteq> t_id x" .
    then have "task_key (Some (t_id t)) \<noteq> task_key (Some (t_id x))"
      using task_key_inj by blast
    from register_task_other[OF this] Cons.prems(2) t
    show "live_triggers ?b1 (task_key (Some (t_id t))) = []" by simp
  qed
  with Cons.IH[of ?b1] Cons.prems show ?case by simp
qed

lemma register_rows_fresh:
  assumes "distinct (map r_id rs)" "distinct (map t_id ts)"
    and "\<forall>r\<in>set rs. live_triggers b (reminder_key (Some (r_id r))) = []"
    and "\<forall>t\<in>set ts. live_triggers b (task_key (Some (t_id t))) = []"
  shows "registers_fresh w
           (map (\<lambda>r. RegisterReminder (Some (r_id r)) (r_content r) (r_channel_id r)
                        (r_user_id r) (r_time r)) rs
            @ map (\<lambda>t. RegisterTask (Some (t_id t)) (t_content t) (t_channel_id t)
                          (t_user_id t) (t_time t) (t_days t)) ts) b"
  using assms
proof (induction rs arbitrary: b)
  case Nil
  then show ?case by (simp add: register_tasks_fresh)
next
  case (Cons x xs)
  let ?b1 = "sched_step w (RegisterReminder (Some (r_id x)) (r_content x) (r_channel_id x)
                             (r_user_id x) (r_time x)) b"
  have r: "\<forall>r\<in>set xs. live_triggers ?b1 (reminder_key (Some (r_id r))) = []"
  proof
    fix r assume r: "r \<in> set xs"
    from distinct_map_head[OF Cons.prems(1) r] have "r_id r \<noteq> r_id x" .
    then have "reminder_key (Some (r_id r)) \<noteq> reminder_key (Some (r_id x))"
      using reminder_key_inj by blast
    from register_reminder_other[OF this] Cons.prems(3) r
    show "live_triggers ?b1 (reminder_key (Some (r_id r))) = []" by simp
  qed
  have t: "\<forall>t\<in>set ts. live_triggers ?b1 (task_key (Some (t_id t))) = []"
  proof
    fix t assume t: "t \<in> set ts"
    have "task_key (Some (t_id t)) \<noteq> reminder_key (Some (r_id x))"
      using reminder_key_not_task_key[of "Some (r_id x)" "Some (t_id t)"] by simp
    from register_reminder_other[OF this] Cons.prems(4) t
    show "live_triggers ?b1 (task_key (Some (t_id t))) = []" by simp
  qed
  from Cons.IH[of ?b1] Cons.prems(1,2) r t Cons.prems(3) show ?case by simp
qed

lemma rebuild_single_trigger:
  assumes ids: "distinct (map r_id (reminders d))" "distinct (map t_id (tasks d))"
    and load: "loadScheduledItems w \<lparr>store = d, jobs = [], cronJobs = []\<rparr> = Inr b'"
  shows "length (live_triggers b' k) \<le> 1"
proof -
  let ?b = "\<lparr>store = d, jobs = [], cronJobs = []\<rparr>"
  have ok: "registry_ok ?b" by (simp add: registry_ok_def)
  have none: "live_triggers ?b k' = []" for k' by (simp add: live_triggers_def)
  have "registers_fresh w (rebuild_ops d) ?b"
    unfolding rebuild_ops_def
    by (rule register_rows_fresh) (simp_all add: ids none)
  with ok have "registry_ok (sched_run w (rebuild_ops d) ?b)" by (rule sched_run_ok)
  with loadScheduledItems_run[OF load] have "registry_ok b'" by simp
  then show ?thesis by (rule registry_ok_at_most_one)
qed

text \<open>
  Claim C4, as the code has it. A registration never stops a job. The map \<open>cronJobs\<close>
  holds one handle per key; a registration sets the handle of its key to the new job and
  leaves every job there was as it was, so the started jobs of the key are those it had
  before and the new one: registering a (kind, id) that has a live trigger leaves it
  with two, of which the map holds the newer. From a sound registry, a run of
  registrations and removals in which each registration targets a key with no started
  job ends with at most one started job for every key; the rebuild at start-up, from an
  empty registry over rows with distinct ids, is such a run.
\<close>

theorem registry_single_trigger_when_fresh:
  "(distinct (map fst (cronJobs b)) \<longrightarrow> distinct (map fst (cronJobs (sched_run w ops b))))
   \<and> (\<forall>b'. scheduleReminder w i c ch u t b = Inr b' \<longrightarrow>
         map_of (cronJobs b') (reminder_key i) = Some (length (jobs b))
         \<and> take (length (jobs b)) (jobs b') = jobs b
         \<and> live_triggers b' (reminder_key i) = live_triggers b (reminder_key i) @ [length (jobs b)])
   \<and> (\<forall>b'. scheduleTask w i c ch u t ds b = Inr b' \<longrightarrow>
         map_of (cronJobs b') (task_key i) = Some (length (jobs b))
         \<and> take (length (jobs b)) (jobs b') = jobs b
         \<and> live_triggers b' (task_key i) = live_triggers b (task_key i) @ [length (jobs b)])
   \<and> (registry_ok b \<and> registers_fresh w ops b \<longrightarrow>
         length (live_triggers (sched_run w ops b) k) \<le> 1)
   \<and> (distinct (map r_id (reminders d)) \<and> distinct (map t_id (tasks d)) \<longrightarrow>
        (\<forall>b'. loadScheduledItems w \<lparr>store = d, jobs = [], cronJobs = []\<rparr> = Inr b' \<longrightarrow>
           length (live_triggers b' k) \<le> 1))"
proof (intro conjI allI impI)
  assume "distinct (map fst (cronJobs b))"
  then show "distinct (map fst (cronJobs (sched_run w ops b)))" by (rule sched_run_distinct)
next
  fix b' assume a: "scheduleReminder w i c ch u t b = Inr b'"
  note r = reregister_keeps_old[OF a]
  show "map_of (cronJobs b') (reminder_key i) = Some (length (jobs b))"
    by (rule r[THEN conjunct1])
  show "take (length (jobs b)) (jobs b') = jobs b"
    by (rule r[THEN conjunct2, THEN conjunct1])
  show "live_triggers b' (reminder_key i) = live_triggers b (reminder_key i) @ [length (jobs b)]"
    by (rule r[THEN conjunct2, THEN conjunct2])
next
  fix b' assume a: "scheduleTask w i c ch u t ds b = Inr b'"
  note r = reregister_task_keeps_old[OF a]
  show "map_of (cronJobs b') (task_key i) = Some (length (jobs b))"
    by (rule r[THEN conjunct1])
  show "take (length (jobs b)) (jobs b') = jobs b"
    by (rule r[THEN conjunct2, THEN conjunct1])
  show "live_triggers b' (task_key i) = live_triggers b (task_key i) @ [length (jobs b)]"
    by (rule r[THEN conjunct2, THEN conjunct2])
next
  assume "registry_ok b \<and> registers_fresh w ops b"
  then have "registry_ok (sched_run w ops b)" by (simp add: sched_run_ok)
  then show "length (live_triggers (sched_run w ops b) k) \<le> 1"
    by (rule registry_ok_at_most_one)
next
  fix b'
  assume "distinct (map r_id (reminders d)) \<and> distinct (map t_id (tasks d))"
    and "loadScheduledItems w \<lparr>store = d, jobs = [], cronJobs = []\<rparr> = Inr b'"
  then show "length (live_triggers b' k) \<le> 1"
    using rebuild_single_trigger by blast
qed

lemma empty_bot_ok: "registry_ok empty_bot"
  by (simp add: registry_ok_def empty_bot_def)

text \<open>
  Two registrations of reminder 1 leave two started jobs under its key. So do two
  creations in one process, of two different reminders: both are registered under the
  key of the id \<open>undefined\<close>.
\<close>

theorem reregister_counterexample:
  "\<not> length (live_triggers
       (sched_run example_world
          [RegisterReminder (Some 1) ''drink water'' ''general'' ''u1'' ''09:00'',
           RegisterReminder (Some 1) ''drink water'' ''general'' ''u1'' ''09:00''] empty_bot)
       (reminder_key (Some 1))) \<le> 1
   \<and> \<not> length (live_triggers
       (snd (add_reminder example_world ''2024-01-16 09:01:00'' (Some ''secret'') ''stretch''
               ''general'' ''u1'' ''10:00''
          (snd (add_reminder example_world ''2024-01-16 09:00:00'' (Some ''secret'')
                  ''drink water'' ''general'' ''u1'' ''09:00'' empty_bot))))
       (reminder_key None)) \<le> 1"
  by code_simp

lemma fresh_example:
  "registers_fresh example_world
          [RegisterReminder (Some 1) ''drink water'' ''general'' ''u1'' ''09:00'',
           Unregister (reminder_key (Some 1)),
           RegisterReminder (Some 1) ''drink water'' ''general'' ''u1'' ''09:00''] empty_bot"
  by code_simp

lemma water_bot_reregistered:
  "scheduleReminder example_world (Some 1) ''drink water'' ''general'' ''u1'' ''09:00'' water_bot
     = Inr (water_bot\<lparr>jobs := jobs water_bot @ [jobs water_bot ! 0],
                        cronJobs := [(''reminder_1'', 1)]\<rparr>)"
  by code_simp

lemma water_bot_loaded:
  "loadScheduledItems example_world \<lparr>store = store water_bot, jobs = [], cronJobs = []\<rparr>
     = Inr water_bot"
  by code_simp

lemma water_bot_live: "live_triggers water_bot (reminder_key (Some 1)) = [0]"
  by code_simp

lemma water_bot_ids:
  "distinct (map r_id (reminders (store water_bot))) \<and> distinct (map t_id (tasks (store water_bot)))"
  by code_simp

theorem registry_single_trigger_when_fresh_witness:
  "distinct (map fst (cronJobs empty_bot))
   \<and> distinct (map fst (cronJobs (sched_run example_world
          [RegisterReminder (Some 1) ''drink water'' ''general'' ''u1'' ''09:00'',
           Unregister (reminder_key (Some 1)),
           RegisterReminder (Some 1) ''drink water'' ''general'' ''u1'' ''09:00''] empty_bot)))
   \<and> (\<exists>b'. scheduleReminder example_world (Some 1) ''drink water'' ''general'' ''u1'' ''09:00''
              water_bot = Inr b'
         \<and> map_of (cronJobs b') (reminder_key (Some 1)) = Some 1
         \<and> take 1 (jobs b') = jobs water_bot
         \<and> live_triggers b' (reminder_key (Some 1)) = [0, 1])
   \<and> registry_ok empty_bot
   \<and> registers_fresh example_world
          [RegisterReminder (Some 1) ''drink water'' ''general'' ''u1'' ''09:00'',
           Unregister (reminder_key (Some 1)),
           RegisterReminder (Some 1) ''drink water'' ''general'' ''u1'' ''09:00''] empty_bot
   \<and> length (live_triggers (sched_run example_world
          [RegisterReminder (Some 1) ''drink water'' ''general'' ''u1'' ''09:00'',
           Unregister (reminder_key (Some 1)),
           RegisterReminder (Some 1) ''drink water'' ''general'' ''u1'' ''09:00''] empty_bot)
        (reminder_key (Some 1))) \<le> 1
   \<and> loadScheduledItems example_world \<lparr>store = store water_bot, jobs = [], cronJobs = []\<rparr>
       = Inr water_bot
   \<and> length (live_triggers water_bot (reminder_key (Some 1))) \<le> 1"
proof -
  let ?ops = "[RegisterReminder (Some 1) ''drink water'' ''general'' ''u1'' ''09:00'',
           Unregister (reminder_key (Some 1)),
           RegisterReminder (Some 1) ''drink water'' ''general'' ''u1'' ''09:00'']"
  note t = registry_single_trigger_when_fresh
  note t1 = t[of empty_bot example_world ?ops _ _ _ _ _ _ "reminder_key (Some 1)" "store water_bot"]
  have d0: "distinct (map fst (cronJobs empty_bot))" by (simp add: empty_bot_def)
  from t1[THEN conjunct1, rule_format, OF d0]
  have a: "distinct (map fst (cronJobs (sched_run example_world ?ops empty_bot)))" .
  from t[of water_bot, THEN conjunct2, THEN conjunct1, rule_format, OF water_bot_reregistered]
  have b: "\<exists>b'. scheduleReminder example_world (Some 1) ''drink water'' ''general'' ''u1'' ''09:00''
              water_bot = Inr b'
         \<and> map_of (cronJobs b') (reminder_key (Some 1)) = Some 1
         \<and> take 1 (jobs b') = jobs water_bot
         \<and> live_triggers b' (reminder_key (Some 1)) = [0, 1]"
    by (simp add: water_bot_reregistered water_bot_live) (simp add: water_bot_def)
  from t1[THEN conjunct2, THEN conjunct2, THEN conjunct2, THEN conjunct1, rule_format,
      OF conjI[OF empty_bot_ok fresh_example]]
  have c: "length (live_triggers (sched_run example_world ?ops empty_bot)
             (reminder_key (Some 1))) \<le> 1" .
  from t1[THEN conjunct2, THEN conjunct2, THEN conjunct2, THEN conjunct2, rule_format,
      OF water_bot_ids water_bot_loaded]
  have e: "length (live_triggers water_bot (reminder_key (Some 1))) \<le> 1" .
  from d0 a b empty_bot_ok fresh_example c water_bot_loaded e show ?thesis
    by (intro conjI)
qed

subsection \<open>Deleting a reminder\<close>

lemma unschedule_store [simp]: "store (unschedule k b) = store b"
  by (simp add: unschedule_def split: option.splits)

lemma logActivity_reminders [simp]: "reminders (logActivity now k data d) = reminders d"
  by (simp add: logActivity_def)

text \<open>
  Whoever the caller is and whatever the table holds, the handler answers that the
  reminder was deleted, and no row with the id is left.
\<close>

lemma delete_reminder_any_caller:
  "fst (handleDeleteReminder now user channel reminderId b) = ReminderDeleted None reminderId
   \<and> reminders (store (snd (handleDeleteReminder now user channel reminderId b)))
       = filter (\<lambda>r. r_id r \<noteq> reminderId) (reminders (store b))"
  by (simp add: handleDeleteReminder_def Let_def)

text \<open>
  Claim C8 fails on the code. Reminder 1 belongs to user \<open>u1\<close> and its trigger was
  registered at start-up. User \<open>u2\<close> deletes it: the handler does not answer
  \<open>ReminderNotFound\<close>, the row is gone and the trigger of \<open>u1\<close> is cancelled. And when a
  user creates a reminder and deletes it in the same process, the row is removed and
  the deletion is acknowledged while the trigger, registered under the key of the id
  \<open>undefined\<close>, is still started and delivers at its next instant.
\<close>

theorem delete_reminder_ignores_owner:
  "map (\<lambda>r. (r_id r, r_user_id r)) (reminders (store water_bot)) = [(1, ''u1'')]
   \<and> live_triggers water_bot (reminder_key (Some 1)) = [0]
   \<and> fst (handleDeleteReminder ''2024-01-02 08:00:00'' ''u2'' ''general'' 1 water_bot)
       = ReminderDeleted None 1
   \<and> reminders (store (snd (handleDeleteReminder ''2024-01-02 08:00:00'' ''u2'' ''general'' 1
        water_bot))) = []
   \<and> live_triggers (snd (handleDeleteReminder ''2024-01-02 08:00:00'' ''u2'' ''general'' 1
        water_bot)) (reminder_key (Some 1)) = []
   \<and> map (\<lambda>r. (r_id r, r_user_id r)) (reminders (store stretch_bot)) = [(1, ''u1'')]
   \<and> fst (handleDeleteReminder ''2024-01-02 08:05:00'' ''u1'' ''general'' 1 stretch_bot)
       = ReminderDeleted None 1
   \<and> reminders (store (snd (handleDeleteReminder ''2024-01-02 08:05:00'' ''u1'' ''general'' 1
        stretch_bot))) = []
   \<and> map j_running (jobs (snd (handleDeleteReminder ''2024-01-02 08:05:00'' ''u1'' ''general'' 1
        stretch_bot))) = [True]
   \<and> map sl_kind (send_logs (store (fire example_world ''2024-01-03 10:00:00'' 0
        (snd (handleDeleteReminder ''2024-01-02 08:05:00'' ''u1'' ''general'' 1 stretch_bot)))))
       = [''reminder'']"
  by code_simp

subsection \<open>Delivery and its log entry\<close>

lemma on_fire_resolved:
  assumes "channel_cached w (j_channelId j)"
  shows "\<exists>e. on_fire w now j d =
             d\<lparr>send_logs := send_logs d @ [e], seq_send_logs := seq_send_logs d + 1\<rparr>
           \<and> sl_kind e = j_kind j \<and> sl_ref_id e = or_null_num (j_id j)
           \<and> (case channel_send w (j_channelId j) (job_message j) of
                 Inr message_id \<Rightarrow> sl_message_id e = or_null (Some message_id) \<and> sl_error e = None
               | Inl err \<Rightarrow> sl_status e = ''failed'' \<and> sl_error e = or_null (Some err)
                              \<and> sl_message_id e = None)"
  using assms
  by (cases "channel_send w (j_channelId j) (job_message j)")
     (auto simp: on_fire_def logSend_def no_data_def or_default_def or_null_def)

lemma send_once_resolved:
  assumes "token = bot_LOGS_TOKEN w" "channel_cached w channel_id"
  shows "\<exists>e. snd (send_once w now token content channel_id d) =
             d\<lparr>send_logs := send_logs d @ [e], seq_send_logs := seq_send_logs d + 1\<rparr>
           \<and> sl_kind e = ''send_once''
           \<and> (case channel_send w channel_id content of
                 Inr message_id \<Rightarrow> sl_message_id e = or_null (Some message_id) \<and> sl_error e = None
               | Inl err \<Rightarrow> sl_status e = ''failed'' \<and> sl_error e = or_null (Some err)
                              \<and> sl_message_id e = None)"
  using assms
  by (cases "channel_send w channel_id content")
     (auto simp: send_once_def logSend_def no_data_def or_default_def or_null_def)

text \<open>
  Claim C1, as the code has it. A firing trigger whose channel is in the client's cache
  appends exactly one send-log entry of the job's kind: with the id of the message sent
  when \<open>channel.send\<close> returns, with status \<open>failed\<close> and the error's message when it
  throws. An authorised \<open>/send-once\<close> whose channel is in the cache does the same with
  kind \<open>send_once\<close>. When the channel is not in the cache, the trigger's callback does
  nothing and \<open>/send-once\<close> answers 404: the store is left as it was and no entry is
  appended.
\<close>

theorem delivery_logs_once_when_channel_resolves:
  "(channel_cached w (j_channelId j) \<longrightarrow>
      (\<exists>e. on_fire w now j d =
             d\<lparr>send_logs := send_logs d @ [e], seq_send_logs := seq_send_logs d + 1\<rparr>
           \<and> sl_kind e = j_kind j
           \<and> (case channel_send w (j_channelId j) (job_message j) of
                 Inr message_id \<Rightarrow> sl_message_id e = or_null (Some message_id) \<and> sl_error e = None
               | Inl err \<Rightarrow> sl_status e = ''failed'' \<and> sl_error e = or_null (Some err)
                              \<and> sl_message_id e = None)))
   \<and> (\<not> channel_cached w (j_channelId j) \<longrightarrow> on_fire w now j d = d)
   \<and> (token = bot_LOGS_TOKEN w \<and> channel_cached w channel_id \<longrightarrow>
      (\<exists>e. snd (send_once w now token content channel_id d) =
             d\<lparr>send_logs := send_logs d @ [e], seq_send_logs := seq_send_logs d + 1\<rparr>
           \<and> sl_kind e = ''send_once''
           \<and> (case channel_send w channel_id content of
                 Inr message_id \<Rightarrow> sl_message_id e = or_null (Some message_id) \<and> sl_error e = None
               | Inl err \<Rightarrow> sl_status e = ''failed'' \<and> sl_error e = or_null (Some err)
                              \<and> sl_message_id e = None)))
   \<and> (token = bot_LOGS_TOKEN w \<and> \<not> channel_cached w channel_id \<longrightarrow>
        send_once w now token content channel_id d =
          (Response 404 (JObject [(''error'', JString ''Channel not found'')]), d))"
proof (intro conjI impI)
  assume "channel_cached w (j_channelId j)"
  from on_fire_resolved[OF this, of now d]
  show "\<exists>e. on_fire w now j d =
             d\<lparr>send_logs := send_logs d @ [e], seq_send_logs := seq_send_logs d + 1\<rparr>
           \<and> sl_kind e = j_kind j
           \<and> (case channel_send w (j_channelId j) (job_message j) of
                 Inr message_id \<Rightarrow> sl_message_id e = or_null (Some message_id) \<and> sl_error e = None
               | Inl err \<Rightarrow> sl_status e = ''failed'' \<and> sl_error e = or_null (Some err)
                              \<and> sl_message_id e = None)"
    by blast
next
  assume "\<not> channel_cached w (j_channelId j)"
  then show "on_fire w now j d = d" by (simp add: on_fire_def)
next
  assume "token = bot_LOGS_TOKEN w \<and> channel_cached w channel_id"
  then show "\<exists>e. snd (send_once w now token content channel_id d) =
             d\<lparr>send_logs := send_logs d @ [e], seq_send_logs := seq_send_logs d + 1\<rparr>
           \<and> sl_kind e = ''send_once''
           \<and> (case channel_send w channel_id content of
                 Inr message_id \<Rightarrow> sl_message_id e = or_null (Some message_id) \<and> sl_error e = None
               | Inl err \<Rightarrow> sl_status e = ''failed'' \<and> sl_error e = or_null (Some err)
                              \<and> sl_message_id e = None)"
    using send_once_resolved by blast
next
  assume "token = bot_LOGS_TOKEN w \<and> \<not> channel_cached w channel_id"
  then show "send_once w now token content channel_id d =
          (Response 404 (JObject [(''error'', JString ''Channel not found'')]), d)"
    by (simp add: send_once_def)
qed

theorem unresolved_channel_logs_nothing:
  "\<not> (\<exists>e. send_logs (on_fire example_world ''2024-01-16 09:00:00'' orphan_job retry_db)
            = send_logs retry_db @ [e])
   \<and> \<not> (\<exists>e. send_logs (snd (send_once example_world ''2024-01-16 09:00:00'' (Some ''secret'')
                               ''hello'' ''archived'' retry_db))
            = send_logs retry_db @ [e])"
  by (simp add: on_fire_def send_once_def example_world_def orphan_job_def standup_job_def)

theorem delivery_logs_once_when_channel_resolves_witness:
  "(\<exists>e. on_fire example_world ''2024-01-16 09:00:00'' standup_job retry_db =
         retry_db\<lparr>send_logs := send_logs retry_db @ [e],
                   seq_send_logs := seq_send_logs retry_db + 1\<rparr>
       \<and> sl_kind e = ''task'' \<and> sl_message_id e = Some ''9001'' \<and> sl_error e = None)
   \<and> on_fire example_world ''2024-01-16 09:00:00'' orphan_job retry_db = retry_db
   \<and> (\<exists>e. snd (send_once example_world ''2024-01-16 09:00:00'' (Some ''secret'') [] ''general''
                  retry_db) =
         retry_db\<lparr>send_logs := send_logs retry_db @ [e],
                   seq_send_logs := seq_send_logs retry_db + 1\<rparr>
       \<and> sl_kind e = ''send_once'' \<and> sl_status e = ''failed''
       \<and> sl_error e = Some ''Cannot send an empty message'')
   \<and> send_once example_world ''2024-01-16 09:00:00'' (Some ''secret'') ''hello'' ''archived''
        retry_db = (Response 404 (JObject [(''error'', JString ''Channel not found'')]), retry_db)"
proof -
  note t = delivery_logs_once_when_channel_resolves
  have c1: "channel_cached example_world (j_channelId standup_job)"
    by (simp add: example_world_def standup_job_def)
  have c2: "\<not> channel_cached example_world (j_channelId orphan_job)"
    by (simp add: example_world_def orphan_job_def standup_job_def)
  have c3: "Some ''secret'' = bot_LOGS_TOKEN example_world \<and> channel_cached example_world ''general''"
    by (simp add: example_world_def)
  have c4: "Some ''secret'' = bot_LOGS_TOKEN example_world \<and> \<not> channel_cached example_world ''archived''"
    by (simp add: example_world_def)
  have s1: "channel_send example_world (j_channelId standup_job) (job_message standup_job) = Inr ''9001''"
    by (simp add: example_world_def standup_job_def job_message_def task_message_def)
  have s3: "channel_send example_world ''general'' [] = Inl ''Cannot send an empty message''"
    by (simp add: example_world_def)
  have k: "j_kind standup_job = ''task''" by (simp add: standup_job_def)
  from t[of example_world standup_job "''2024-01-16 09:00:00''" retry_db, THEN conjunct1, rule_format, OF c1]
  have a: "\<exists>e. on_fire example_world ''2024-01-16 09:00:00'' standup_job retry_db =
         retry_db\<lparr>send_logs := send_logs retry_db @ [e],
                   seq_send_logs := seq_send_logs retry_db + 1\<rparr>
       \<and> sl_kind e = ''task'' \<and> sl_message_id e = Some ''9001'' \<and> sl_error e = None"
    by (auto simp: s1 k or_null_def)
  from t[of example_world orphan_job "''2024-01-16 09:00:00''" retry_db, THEN conjunct2, THEN conjunct1, rule_format, OF c2]
  have b: "on_fire example_world ''2024-01-16 09:00:00'' orphan_job retry_db = retry_db" .
  from t[of example_world _ "''2024-01-16 09:00:00''" retry_db "Some ''secret''" "''general''" "[]", THEN conjunct2, THEN conjunct2, THEN conjunct1, rule_format, OF c3]
  have c: "\<exists>e. snd (send_once example_world ''2024-01-16 09:00:00'' (Some ''secret'') [] ''general''
                  retry_db) =
         retry_db\<lparr>send_logs := send_logs retry_db @ [e],
                   seq_send_logs := seq_send_logs retry_db + 1\<rparr>
       \<and> sl_kind e = ''send_once'' \<and> sl_status e = ''failed''
       \<and> sl_error e = Some ''Cannot send an empty message''"
    by (auto simp: s3 or_null_def)
  from t[of example_world _ "''2024-01-16 09:00:00''" retry_db "Some ''secret''" "''archived''" "''hello''", THEN conjunct2, THEN conjunct2, THEN conjunct2, rule_format, OF c4]
  have d: "send_once example_world ''2024-01-16 09:00:00'' (Some ''secret'') ''hello'' ''archived''
        retry_db = (Response 404 (JObject [(''error'', JString ''Channel not found'')]), retry_db)" .
  from a b c d show ?thesis by blast
qed

subsection \<open>Validation of time and day input\<close>

text \<open>
  Claim C7 fails on the HTTP endpoints. The slash command rejects the time \<open>25:99\<close> and
  the day list \<open>7,x\<close> and leaves the state as it was; \<open>/add-reminder\<close> and \<open>/add-task\<close>
  have no check and insert the row, whether node-cron then throws, as the library does
  on these two schedules (the answer is 500 and the row stays), or accepts the schedule
  (the trigger is registered, under the key of the id \<open>undefined\<close>, and the answer is
  200). The slash command's day check reads each token with \<open>parseInt\<close>, so it also
  accepts the tokens \<open>1x\<close> and \<open>2.5\<close>.
\<close>

theorem http_create_skips_validation:
  "handleAddReminder example_world ''2024-01-16 09:00:00'' ''u1'' ''general'' ''stretch'' ''25:99''
      empty_bot = (InvalidTimeFormat, empty_bot)
   \<and> (case add_reminder example_world ''2024-01-16 09:00:00'' (Some ''secret'') ''stretch''
              ''general'' ''u1'' ''25:99'' empty_bot of
         (resp, b') \<Rightarrow> status_code resp = 200
            \<and> map r_time (reminders (store b')) = [''25:99'']
            \<and> live_triggers b' (reminder_key None) = [0])
   \<and> (case add_reminder strict_cron_world ''2024-01-16 09:00:00'' (Some ''secret'') ''stretch''
              ''general'' ''u1'' ''25:99'' empty_bot of
         (resp, b') \<Rightarrow> status_code resp = 500
            \<and> map r_time (reminders (store b')) = [''25:99''])
   \<and> handleAddTask example_world ''2024-01-16 09:00:00'' ''u1'' ''general'' ''stretch'' ''09:00''
        (Some ''7,x'') empty_bot = (InvalidDaysFormat, empty_bot)
   \<and> fst (handleAddTask example_world ''2024-01-16 09:00:00'' ''u1'' ''general'' ''stretch''
        ''09:00'' (Some ''1x, 2.5'') empty_bot) = TaskAdded ''stretch'' ''09:00'' (Some ''1x, 2.5'')
   \<and> (case add_task example_world ''2024-01-16 09:00:00'' (Some ''secret'') ''stretch''
              ''general'' ''u1'' ''09:00'' (Some ''7,x'') empty_bot of
         (resp, b') \<Rightarrow> status_code resp = 200
            \<and> map t_days (tasks (store b')) = [Some ''7,x'']
            \<and> live_triggers b' (task_key None) = [0])
   \<and> (case add_task strict_cron_world ''2024-01-16 09:00:00'' (Some ''secret'') ''stretch''
              ''general'' ''u1'' ''09:00'' (Some ''7,x'') empty_bot of
         (resp, b') \<Rightarrow> status_code resp = 500
            \<and> map t_days (tasks (store b')) = [Some ''7,x''])
   \<and> fst (handleAddTask strict_cron_world ''2024-01-16 09:00:00'' ''u1'' ''general'' ''stretch''
        ''09:00'' (Some ''1x, 2.5'') empty_bot) = TaskAdded ''stretch'' ''09:00'' (Some ''1x, 2.5'')"
  by code_simp

subsection \<open>Log rotation\<close>

lemma morning_before_evening: "earlier morning_of_jan_15 evening_of_jan_15"
  by (simp add: earlier_def dt_fields_def morning_of_jan_15_def evening_of_jan_15_def)

lemma evening_stamp: "CURRENT_TIMESTAMP evening_of_jan_15 = ''2024-01-15 23:00:00''"
  by code_simp

lemma morning_cutoff: "toISOString morning_of_jan_15 = ''2024-01-15T10:00:00.000Z''"
  by code_simp



lemma evening_rows: "map sl_sent_at (send_logs evening_db) = [''2024-01-15 23:00:00'']"
  by (simp add: evening_db_def logSend_def empty_db_def evening_stamp)

lemma evening_activity: "activity_logs evening_db = []"
  by (simp add: evening_db_def logSend_def empty_db_def)

text \<open>
  A stored timestamp of the cutoff's UTC day sorts before the cutoff's ISO string,
  whatever the two times of day: the strings agree up to the day, and the next
  character is a space in the one and \<open>T\<close> in the other. So \<open>rotateLogs\<close> deletes every
  row stamped on the cutoff's day.
\<close>

lemma same_day_sorts_before:
  assumes "same_day t cutoffDate"
  shows "CURRENT_TIMESTAMP t < toISOString cutoffDate"
proof -
  let ?day = "pad 4 (dt_year t) @ ''-'' @ pad 2 (dt_month t) @ ''-'' @ pad 2 (dt_day t)"
  have "(?day @ CHR '' '' # (pad 2 (dt_hour t) @ '':'' @ pad 2 (dt_minute t) @ '':'' @ pad 2 (dt_second t)),
         ?day @ CHR ''T'' # (pad 2 (dt_hour cutoffDate) @ '':'' @ pad 2 (dt_minute cutoffDate) @ '':''
            @ pad 2 (dt_second cutoffDate) @ ''.'' @ pad 3 (dt_millis cutoffDate) @ ''Z''))
        \<in> lexord {(u, v). u < v}"
    by (rule lexord_append_left_rightI) simp
  with assms show ?thesis
    by (simp add: CURRENT_TIMESTAMP_def toISOString_def same_day_def list_less_def)
qed

lemma rotation_deletes_the_cutoff_day:
  assumes "l \<in> set (send_logs d)" "sl_sent_at l = CURRENT_TIMESTAMP t" "same_day t cutoffDate"
  shows "l \<notin> set (send_logs (snd (rotateLogs cutoffDate now d)))"
proof -
  from assms(2,3) have lt: "sl_sent_at l < toISOString cutoffDate"
    by (simp add: same_day_sorts_before)
  with assms(1) have "filter (\<lambda>l. sl_sent_at l < toISOString cutoffDate) (send_logs d) \<noteq> []"
    by (auto simp: filter_empty_conv)
  then have "0 < length (filter (\<lambda>l. sl_sent_at l < toISOString cutoffDate) (send_logs d))"
    by (rule length_greater_0_conv[THEN iffD2])
  then have "int (length (filter (\<lambda>l. sl_sent_at l < toISOString cutoffDate) (send_logs d))) +
        int (length (filter (\<lambda>l. al_created_at l < toISOString cutoffDate) (activity_logs d))) \<noteq> 0"
    by linarith
  with lt show ?thesis by (simp add: rotateLogs_def Let_def)
qed

text \<open>
  Claim C6 fails on the code. A send-log row written at 23:00 UTC on 15 January 2024 is
  newer than a cutoff of 10:00 UTC on the same day, and \<open>rotateLogs\<close> deletes it: the
  stored \<open>2024-01-15 23:00:00\<close> is compared as TEXT with the cutoff's
  \<open>2024-01-15T10:00:00.000Z\<close>, the two agree up to the day, and a space sorts before
  \<open>T\<close>. Every row stamped on the cutoff's UTC day is deleted, whatever its time.
\<close>

theorem rotation_deletes_row_newer_than_cutoff:
  "earlier morning_of_jan_15 evening_of_jan_15
   \<and> map sl_sent_at (send_logs evening_db) = [''2024-01-15 23:00:00'']
   \<and> toISOString morning_of_jan_15 = ''2024-01-15T10:00:00.000Z''
   \<and> fst (rotateLogs morning_of_jan_15 ''2024-02-14 10:00:00'' evening_db) = 1
   \<and> send_logs (snd (rotateLogs morning_of_jan_15 ''2024-02-14 10:00:00'' evening_db)) = []"
proof -
  from evening_rows obtain e where e: "send_logs evening_db = [e]" "sl_sent_at e = ''2024-01-15 23:00:00''"
    by auto
  have "rotateLogs morning_of_jan_15 ''2024-02-14 10:00:00'' evening_db =
     (1, evening_db\<lparr>send_logs := [], activity_logs := [],
           log_rotation := log_rotation evening_db @
                   [\<lparr>rot_id = seq_log_rotation evening_db + 1, rot_table_name = ''logs_combined'',
                     rot_rotated_at = ''2024-02-14 10:00:00'', rot_records_archived = 1\<rparr>],
           seq_log_rotation := seq_log_rotation evening_db + 1\<rparr>)"
    by (simp add: rotateLogs_def morning_cutoff e evening_activity)
  with morning_before_evening evening_rows morning_cutoff show ?thesis by simp
qed

subsection \<open>Schema migrations\<close>







lemma add_column_dup_has:
  "add_column t c d s = Inl err \<Longrightarrow> str_includes err ''duplicate column name'' \<Longrightarrow>
   err = duplicate_column c \<or> err = no_such_table t"
  by (auto simp: add_column_def split: option.splits if_splits)




























section \<open>Properties of the log query\<close>

subsection \<open>The cursor string\<close>

lemma split_on_none: "c \<notin> set s \<Longrightarrow> split_on c s = [s]"
  by (induction s) auto

lemma split_on_first: "c \<notin> set s \<Longrightarrow> split_on c (s @ c # r) = s # split_on c r"
  by (induction s) auto

lemma parse_cursor_of:
  assumes "CHR ''_'' \<notin> set (lr_timestamp r)" and safe: "\<bar>lr_id r\<bar> < 2 ^ 53"
  shows "parse_cursor (cursor_of r) = (lr_timestamp r, Some (lr_id r))"
proof -
  have "split_on (CHR ''_'') (cursor_of r) = [lr_timestamp r, string_of_int (lr_id r)]"
    using split_on_first[OF assms(1), of "string_of_int (lr_id r)"]
      split_on_none[OF string_of_int_no_underscore, of "lr_id r"]
    by (simp add: cursor_of_def)
  then show ?thesis by (simp add: parse_cursor_def parseInt_string_of_int[OF safe])
qed

lemma cursor_of_nonempty: "cursor_of r \<noteq> []"
  by (simp add: cursor_of_def)

lemma cursor_condition_of:
  assumes "CHR ''_'' \<notin> set (lr_timestamp r0)" "\<bar>lr_id r0\<bar> < 2 ^ 53"
  shows "cursor_condition (qry\<lparr>q_cursor := Some (cursor_of r0)\<rparr>) r =
         (lr_timestamp r < lr_timestamp r0
          \<or> (lr_timestamp r = lr_timestamp r0 \<and> lr_id r < lr_id r0))"
  by (simp add: cursor_condition_def or_null_def cursor_of_nonempty parse_cursor_of[OF assms])

subsection \<open>Sorting\<close>

lemma set_insert_by [simp]: "set (insert_by ord x ys) = insert x (set ys)"
  by (induction ys) auto

lemma set_sort_by [simp]: "set (sort_by ord xs) = set xs"
  by (induction xs) (simp_all add: sort_by_def)

lemma sort_by_Cons: "sort_by ord (x # xs) = insert_by ord x (sort_by ord xs)"
  by (simp add: sort_by_def)

lemma sort_by_Nil [simp]: "sort_by ord [] = []"
  by (simp add: sort_by_def)

lemma length_insert_by [simp]: "length (insert_by ord x ys) = Suc (length ys)"
  by (induction ys) auto

lemma length_sort_by [simp]: "length (sort_by ord xs) = length xs"
  by (induction xs) (simp_all add: sort_by_Cons)

lemma distinct_insert_by: "x \<notin> set ys \<Longrightarrow> distinct ys \<Longrightarrow> distinct (insert_by ord x ys)"
  by (induction ys) auto

lemma distinct_sort_by: "distinct xs \<Longrightarrow> distinct (sort_by ord xs)"
  by (induction xs) (simp_all add: sort_by_Cons distinct_insert_by)

lemma insert_by_cong:
  "(\<And>b. b \<in> set ys \<Longrightarrow> ord x b = ord' x b) \<Longrightarrow> insert_by ord x ys = insert_by ord' x ys"
  by (induction ys) auto

lemma sort_by_cong:
  "(\<And>a b. a \<in> set xs \<Longrightarrow> b \<in> set xs \<Longrightarrow> ord a b = ord' a b) \<Longrightarrow>
   sort_by ord xs = sort_by ord' xs"
proof (induction xs)
  case Nil then show ?case by simp
next
  case (Cons x xs)
  then have "sort_by ord xs = sort_by ord' xs" by simp
  moreover have "insert_by ord x (sort_by ord' xs) = insert_by ord' x (sort_by ord' xs)"
    by (rule insert_by_cong) (simp add: Cons.prems)
  ultimately show ?case by (simp add: sort_by_Cons)
qed

lemma sorted_insert_newest:
  "sorted_wrt newest_first ys \<Longrightarrow> sorted_wrt newest_first (insert_by newest_first x ys)"
  by (induction ys) (auto simp: newest_first_def)

lemma sorted_sort_newest: "sorted_wrt newest_first (sort_by newest_first xs)"
  by (induction xs) (simp_all add: sort_by_Cons sorted_insert_newest)

lemma newest_strict:
  assumes "sorted_wrt newest_first xs" "distinct (map lr_timestamp xs)"
  shows "sorted_wrt (\<lambda>a b. lr_timestamp b < lr_timestamp a) xs"
  using assms
proof (induction xs)
  case Nil then show ?case by simp
next
  case (Cons x xs)
  have "lr_timestamp b < lr_timestamp x" if "b \<in> set xs" for b
  proof -
    from Cons.prems(1) that have "lr_timestamp b \<le> lr_timestamp x"
      by (auto simp: newest_first_def)
    moreover from Cons.prems(2) have "lr_timestamp x \<notin> lr_timestamp ` set xs" by simp
    with that have "lr_timestamp b \<noteq> lr_timestamp x" by (metis image_eqI)
    ultimately show ?thesis by simp
  qed
  with Cons show ?case by simp
qed

lemma strict_sorted_unique:
  assumes "sorted_wrt (\<lambda>a b. lr_timestamp b < lr_timestamp a) xs"
    "sorted_wrt (\<lambda>a b. lr_timestamp b < lr_timestamp a) ys" "set xs = set ys"
  shows "xs = ys"
  using assms
proof (induction xs arbitrary: ys)
  case Nil then show ?case by simp
next
  case (Cons x xs)
  then obtain y ys' where ys: "ys = y # ys'" by (cases ys) auto
  have xy: "x = y"
  proof (rule ccontr)
    assume ne: "x \<noteq> y"
    with Cons.prems(3) ys have "x \<in> set ys'" "y \<in> set xs" by auto
    with Cons.prems(1,2) ys have "lr_timestamp x < lr_timestamp y" "lr_timestamp y < lr_timestamp x"
      by auto
    then show False by simp
  qed
  from Cons.prems(1) have "x \<notin> set xs" by auto
  moreover from Cons.prems(2) ys have "y \<notin> set ys'" by auto
  ultimately have "set xs = set ys'" using Cons.prems(3) ys xy by auto
  with Cons.IH[of ys'] Cons.prems(1,2) ys xy show ?case by simp
qed

lemma strict_sorted_drop:
  assumes "sorted_wrt (\<lambda>a b. lr_timestamp b < lr_timestamp a) xs" "i < length xs"
  shows "set (drop (Suc i) xs) = {r \<in> set xs. lr_timestamp r < lr_timestamp (xs ! i)}"
proof -
  have id: "xs = take i xs @ (xs ! i) # drop (Suc i) xs"
    using assms(2) by (simp add: id_take_nth_drop)
  from assms(1) have "sorted_wrt (\<lambda>a b. lr_timestamp b < lr_timestamp a)
      (take i xs @ (xs ! i) # drop (Suc i) xs)" using id by simp
  then have front: "\<forall>a\<in>set (take i xs). lr_timestamp (xs ! i) < lr_timestamp a"
    and after: "\<forall>b\<in>set (drop (Suc i) xs). lr_timestamp b < lr_timestamp (xs ! i)"
    by (auto simp: sorted_wrt_append)
  have "set xs = set (take i xs) \<union> {xs ! i} \<union> set (drop (Suc i) xs)"
    by (subst id) auto
  with front after show ?thesis by (auto simp: in_set_dropD)
qed

subsection \<open>The merged list\<close>

lemma date_agreesD:
  assumes "date_agrees getTime stamps" "s \<in> set stamps" "t \<in> set stamps" "s < t"
  shows "\<exists>m n. getTime s = Some m \<and> getTime t = Some n \<and> m < n"
proof -
  from assms have "case (getTime s, getTime t) of (Some m, Some n) \<Rightarrow> m < n | _ \<Rightarrow> False"
    by (auto simp: date_agrees_def list_all_iff)
  then show ?thesis by (auto split: option.splits)
qed

lemma js_order_self: "js_order getTime a a"
  by (simp add: js_order_def compare_logs_def split: option.splits)

lemma js_order_newest:
  assumes d: "distinct (map lr_timestamp rows)" and g: "date_agrees getTime (map lr_timestamp rows)"
    and a: "a \<in> set rows" and b: "b \<in> set rows"
  shows "js_order getTime a b = newest_first a b"
proof (cases "a = b")
  case True
  then show ?thesis by (simp add: js_order_self newest_first_def)
next
  case False
  from d have "inj_on lr_timestamp (set rows)" by (simp add: distinct_map)
  with False a b have ne: "lr_timestamp a \<noteq> lr_timestamp b" by (auto dest: inj_onD)
  show ?thesis
  proof (cases "lr_timestamp a < lr_timestamp b")
    case True
    from date_agreesD[OF g _ _ True] a b obtain m n
      where "getTime (lr_timestamp a) = Some m" "getTime (lr_timestamp b) = Some n" "m < n"
      by auto
    with True show ?thesis by (simp add: js_order_def compare_logs_def newest_first_def)
  next
    case False
    with ne have lt: "lr_timestamp b < lr_timestamp a" by simp
    from date_agreesD[OF g _ _ lt] a b obtain m n
      where "getTime (lr_timestamp b) = Some m" "getTime (lr_timestamp a) = Some n" "m < n"
      by auto
    with lt show ?thesis by (simp add: js_order_def compare_logs_def newest_first_def)
  qed
qed

lemma sql_order_newest:
  assumes d: "distinct (map lr_timestamp rows)" and a: "a \<in> set rows" and b: "b \<in> set rows"
  shows "sql_order a b = newest_first a b"
proof (cases "a = b")
  case True
  then show ?thesis by (simp add: sql_order_def newest_first_def)
next
  case False
  from d have "inj_on lr_timestamp (set rows)" by (simp add: distinct_map)
  with False a b have "lr_timestamp a \<noteq> lr_timestamp b" by (auto dest: inj_onD)
  then show ?thesis by (auto simp: sql_order_def newest_first_def)
qed

lemma merged_logs_newest:
  assumes d: "distinct (map lr_timestamp (all_rows db))"
    and g: "date_agrees getTime (map lr_timestamp (all_rows db))"
  shows "merged_logs getTime db qry =
     sort_by newest_first
       (sort_by newest_first (filter (selected qry) (map send_row (send_logs db)))
        @ sort_by newest_first (filter (selected qry) (map activity_row (activity_logs db))))"
proof -
  let ?S = "filter (selected qry) (map send_row (send_logs db))"
  let ?A = "filter (selected qry) (map activity_row (activity_logs db))"
  have sub: "set ?S \<subseteq> set (all_rows db)" "set ?A \<subseteq> set (all_rows db)"
    by (auto simp: all_rows_def)
  have s: "sort_by sql_order ?S = sort_by newest_first ?S"
    by (rule sort_by_cong) (use sub in \<open>auto intro!: sql_order_newest[OF d]\<close>)
  have a: "sort_by sql_order ?A = sort_by newest_first ?A"
    by (rule sort_by_cong) (use sub in \<open>auto intro!: sql_order_newest[OF d]\<close>)
  have j: "sort_by (js_order getTime) (sort_by newest_first ?S @ sort_by newest_first ?A)
         = sort_by newest_first (sort_by newest_first ?S @ sort_by newest_first ?A)"
    by (rule sort_by_cong) (use sub in \<open>auto intro!: js_order_newest[OF d g]\<close>)
  show ?thesis
    unfolding merged_logs_def Let_def selected_def[symmetric, abs_def]
    by (simp only: s a j)
qed

lemma set_merged_logs:
  assumes d: "distinct (map lr_timestamp (all_rows db))"
    and g: "date_agrees getTime (map lr_timestamp (all_rows db))"
  shows "set (merged_logs getTime db qry) = {r \<in> set (all_rows db). selected qry r}"
  by (auto simp: merged_logs_newest[OF d g] all_rows_def)

lemma distinct_filter_append:
  "distinct (xs @ ys) \<Longrightarrow> distinct (filter P xs @ filter P ys)"
  by auto

lemma sorted_merged_logs:
  assumes d: "distinct (map lr_timestamp (all_rows db))"
    and g: "date_agrees getTime (map lr_timestamp (all_rows db))"
  shows "sorted_wrt (\<lambda>a b. lr_timestamp b < lr_timestamp a) (merged_logs getTime db qry)"
proof (rule newest_strict)
  show "sorted_wrt newest_first (merged_logs getTime db qry)"
    by (simp add: merged_logs_newest[OF d g] sorted_sort_newest)
  from d have inj: "inj_on lr_timestamp (set (all_rows db))" and dr: "distinct (all_rows db)"
    by (simp_all add: distinct_map)
  from dr have "distinct (merged_logs getTime db qry)"
    unfolding merged_logs_newest[OF d g]
    by (intro distinct_sort_by) (auto simp: all_rows_def distinct_sort_by)
  moreover have "set (merged_logs getTime db qry) \<subseteq> set (all_rows db)"
    by (auto simp: set_merged_logs[OF d g])
  ultimately show "distinct (map lr_timestamp (merged_logs getTime db qry))"
    using inj by (auto simp: distinct_map intro: inj_on_subset)
qed

subsection \<open>A cursor resumes after its row\<close>

lemma filter_conditions_cursor [simp]:
  "filter_conditions (qry\<lparr>q_cursor := c\<rparr>) = filter_conditions qry"
  by (rule ext) (simp add: filter_conditions_def)

lemma cursor_condition_none [simp]: "cursor_condition (qry\<lparr>q_cursor := None\<rparr>) r"
  by (simp add: cursor_condition_def or_null_def)

lemma merged_after_cursor:
  assumes d: "distinct (map lr_timestamp (all_rows db))"
    and g: "date_agrees getTime (map lr_timestamp (all_rows db))"
    and u: "\<forall>r\<in>set (all_rows db). CHR ''_'' \<notin> set (lr_timestamp r)"
    and s: "\<forall>r\<in>set (all_rows db). \<bar>lr_id r\<bar> < 2 ^ 53"
    and i: "i < length (merged_logs getTime db (qry\<lparr>q_cursor := None\<rparr>))"
  shows "merged_logs getTime db
           (qry\<lparr>q_cursor := Some (cursor_of (merged_logs getTime db (qry\<lparr>q_cursor := None\<rparr>) ! i))\<rparr>)
         = drop (Suc i) (merged_logs getTime db (qry\<lparr>q_cursor := None\<rparr>))"
proof -
  let ?L = "merged_logs getTime db (qry\<lparr>q_cursor := None\<rparr>)"
  let ?r0 = "?L ! i"
  let ?q = "qry\<lparr>q_cursor := Some (cursor_of ?r0)\<rparr>"
  have setL: "set ?L = {r \<in> set (all_rows db). filter_conditions qry r}"
    by (simp add: set_merged_logs[OF d g] selected_def)
  from i have r0L: "?r0 \<in> set ?L" by simp
  with setL have r0: "?r0 \<in> set (all_rows db)" by simp
  with u have nu: "CHR ''_'' \<notin> set (lr_timestamp ?r0)" by simp
  from r0 s have safe: "\<bar>lr_id ?r0\<bar> < 2 ^ 53" by simp
  from d have inj: "inj_on lr_timestamp (set (all_rows db))" by (simp add: distinct_map)
  have cc: "cursor_condition ?q r = (lr_timestamp r < lr_timestamp ?r0)"
    if "r \<in> set (all_rows db)" for r
  proof -
    have "lr_timestamp r = lr_timestamp ?r0 \<Longrightarrow> r = ?r0"
      using inj that r0 by (auto dest: inj_onD)
    then show ?thesis unfolding cursor_condition_of[OF nu safe] by auto
  qed
  have "set (merged_logs getTime db ?q)
        = {r \<in> set (all_rows db). filter_conditions qry r \<and> lr_timestamp r < lr_timestamp ?r0}"
    using cc by (auto simp: set_merged_logs[OF d g] selected_def)
  also have "\<dots> = {r \<in> set ?L. lr_timestamp r < lr_timestamp ?r0}"
    using setL by auto
  also have "\<dots> = set (drop (Suc i) ?L)"
    using strict_sorted_drop[OF sorted_merged_logs[OF d g] i] by simp
  finally have sets: "set (merged_logs getTime db ?q) = set (drop (Suc i) ?L)" .
  show ?thesis
  proof (rule strict_sorted_unique[OF _ _ sets])
    show "sorted_wrt (\<lambda>a b. lr_timestamp b < lr_timestamp a) (merged_logs getTime db ?q)"
      by (rule sorted_merged_logs[OF d g])
    show "sorted_wrt (\<lambda>a b. lr_timestamp b < lr_timestamp a) (drop (Suc i) ?L)"
      by (rule sorted_wrt_drop[OF sorted_merged_logs[OF d g]])
  qed
qed

subsection \<open>One page\<close>

lemma paginate_positive:
  assumes "0 < k"
  shows "paginate (Some k) xs =
     \<lparr>logs = take (nat k) xs, hasMore = (nat k < length xs),
       nextCursor = (if nat k < length xs then Some (cursor_of (xs ! (nat k - 1))) else None)\<rparr>"
proof (cases "nat k < length xs")
  case True
  with assms have l: "length (take (nat (k + 1)) xs) = nat k + 1" by (simp add: nat_add_distrib)
  have b: "butlast (take (nat (k + 1)) xs) = take (nat k) xs"
    using True assms by (simp add: butlast_take nat_add_distrib)
  have ne: "take (nat k) xs \<noteq> []" using True assms by auto
  have la: "last (take (nat k) xs) = xs ! (nat k - 1)"
    using True assms ne by (simp add: last_conv_nth)
  from True assms l b ne la show ?thesis
    by (simp add: paginate_def slice0_def Let_def)
next
  case False
  then have t: "take (nat (k + 1)) xs = xs" "take (nat k) xs = xs" using assms by simp_all
  from False assms t show ?thesis
    by (simp add: paginate_def slice0_def Let_def)
qed

subsection \<open>Following the cursor\<close>

lemma GET_cursor:
  "GET getTime db (qry\<lparr>q_cursor := c\<rparr>) =
     paginate (parseInt (or_default (q_limit qry) ''50'')) (merged_logs getTime db (qry\<lparr>q_cursor := c\<rparr>))"
  by (simp add: GET_def)

lemma follow_cursor_from:
  assumes d: "distinct (map lr_timestamp (all_rows db))"
    and g: "date_agrees getTime (map lr_timestamp (all_rows db))"
    and u: "\<forall>r\<in>set (all_rows db). CHR ''_'' \<notin> set (lr_timestamp r)"
    and s: "\<forall>r\<in>set (all_rows db). \<bar>lr_id r\<bar> < 2 ^ 53"
    and k: "0 < k" and lim: "parseInt (or_default (q_limit qry) ''50'') = Some k"
  shows "merged_logs getTime db (qry\<lparr>q_cursor := c\<rparr>)
           = drop p (merged_logs getTime db (qry\<lparr>q_cursor := None\<rparr>)) \<Longrightarrow>
         length (merged_logs getTime db (qry\<lparr>q_cursor := None\<rparr>)) - p < fuel \<Longrightarrow>
         \<exists>pages. follow_cursor fuel getTime db (qry\<lparr>q_cursor := c\<rparr>) = Some pages
           \<and> concat (map logs pages) = drop p (merged_logs getTime db (qry\<lparr>q_cursor := None\<rparr>))
           \<and> map hasMore pages = replicate (length pages - 1) True @ [False]"
proof (induction fuel arbitrary: p c)
  case 0
  then show ?case by simp
next
  case (Suc fuel)
  let ?L = "merged_logs getTime db (qry\<lparr>q_cursor := None\<rparr>)"
  let ?R = "drop p ?L"
  let ?page = "GET getTime db (qry\<lparr>q_cursor := c\<rparr>)"
  have page: "?page = \<lparr>logs = take (nat k) ?R, hasMore = (nat k < length ?R),
       nextCursor = (if nat k < length ?R then Some (cursor_of (?R ! (nat k - 1))) else None)\<rparr>"
    by (simp only: GET_cursor lim Suc.prems(1) paginate_positive[OF k])
  show ?case
  proof (cases "nat k < length ?R")
    case False
    with page have "follow_cursor (Suc fuel) getTime db (qry\<lparr>q_cursor := c\<rparr>) = Some [?page]"
      by (simp add: Let_def)
    moreover from False page have "logs ?page = ?R" "hasMore ?page = False" by simp_all
    ultimately show ?thesis by simp
  next
    case True
    let ?i = "p + nat k - 1"
    from True k have i: "?i < length ?L" and pk: "Suc ?i = p + nat k" by auto
    from True k have nth: "?R ! (nat k - 1) = ?L ! ?i" by (simp add: add.commute)
    have next_merged: "merged_logs getTime db (qry\<lparr>q_cursor := Some (cursor_of (?L ! ?i))\<rparr>)
        = drop (p + nat k) ?L"
      using merged_after_cursor[OF d g u s i] pk by simp
    from Suc.prems(2) True k have fuel: "length ?L - (p + nat k) < fuel" by auto
    from Suc.IH[OF next_merged fuel] obtain pages where
      f: "follow_cursor fuel getTime db (qry\<lparr>q_cursor := Some (cursor_of (?L ! ?i))\<rparr>) = Some pages"
      and cat: "concat (map logs pages) = drop (p + nat k) ?L"
      and more: "map hasMore pages = replicate (length pages - 1) True @ [False]"
      by blast
    from more have ne: "pages \<noteq> []" by auto
    from page True nth have nc: "nextCursor ?page = Some (cursor_of (?L ! ?i))"
      and hm: "hasMore ?page" and lg: "logs ?page = take (nat k) ?R" by simp_all
    from f nc hm have "follow_cursor (Suc fuel) getTime db (qry\<lparr>q_cursor := c\<rparr>) = Some (?page # pages)"
      by (simp add: Let_def)
    moreover have "concat (map logs (?page # pages)) = ?R"
      using lg cat by (simp add: add.commute) (metis append_take_drop_id drop_drop add.commute)
    moreover have "map hasMore (?page # pages) = replicate (length (?page # pages) - 1) True @ [False]"
      using hm more ne by (cases pages) (simp_all add: replicate_app_Cons_same)
    ultimately show ?thesis by blast
  qed
qed

lemma strict_sorted_distinct:
  "sorted_wrt (\<lambda>a b. lr_timestamp b < lr_timestamp a) xs \<Longrightarrow> distinct xs"
  by (induction xs) auto

lemma no_filter_selected: "selected (no_filter l) r"
  by (simp add: selected_def filter_conditions_def cursor_condition_def no_filter_def or_null_def)

lemma no_filter_cursor: "(no_filter l)\<lparr>q_cursor := None\<rparr> = no_filter l"
  by (simp add: no_filter_def)

lemma string_of_int_nonempty: "string_of_int i \<noteq> []"
  by (simp add: string_of_int_def string_of_nat_nonempty)

lemma no_filter_limit:
  "\<bar>k\<bar> < 2 ^ 53 \<Longrightarrow>
   parseInt (or_default (q_limit (no_filter (string_of_int k))) ''50'') = Some k"
  by (simp add: no_filter_def or_default_def or_null_def string_of_int_nonempty parseInt_string_of_int)

text \<open>
  Where \<open>Date\<close> orders the timestamps of the store as SQLite's text comparison does, the
  pages are complete. Take any store whose log rows, over both tables, have pairwise
  distinct timestamps with no underscore and ids a number holds exactly, and any limit
  \<open>k > 0\<close>. A client that asks for the unfiltered log with limit \<open>k\<close> and passes each
  \<open>nextCursor\<close> back gets its last page after at most as many requests as there are rows
  plus one; the pages, one after the other, hold every row exactly once, in strictly
  descending order of (timestamp, id); and \<open>hasMore\<close> is true on every page but the last.
\<close>

lemma pagination_complete_when_date_agrees:
  assumes d: "distinct (map lr_timestamp (all_rows db))"
    and g: "date_agrees getTime (map lr_timestamp (all_rows db))"
    and u: "\<forall>r\<in>set (all_rows db). CHR ''_'' \<notin> set (lr_timestamp r)"
    and s: "\<forall>r\<in>set (all_rows db). \<bar>lr_id r\<bar> < 2 ^ 53"
    and k: "0 < k" "k < 2 ^ 53"
  shows "\<exists>pages. follow_cursor (Suc (length (all_rows db))) getTime db (no_filter (string_of_int k))
                    = Some pages
           \<and> distinct (concat (map logs pages))
           \<and> set (concat (map logs pages)) = set (all_rows db)
           \<and> sorted_wrt key_after (concat (map logs pages))
           \<and> map hasMore pages = replicate (length pages - 1) True @ [False]"
proof -
  let ?q = "no_filter (string_of_int k)"
  let ?L = "merged_logs getTime db ?q"
  have start: "merged_logs getTime db (?q\<lparr>q_cursor := None\<rparr>)
               = drop 0 (merged_logs getTime db (?q\<lparr>q_cursor := None\<rparr>))" by simp
  have setL: "set ?L = set (all_rows db)"
    by (simp add: set_merged_logs[OF d g] no_filter_selected)
  have sorted: "sorted_wrt (\<lambda>a b. lr_timestamp b < lr_timestamp a) ?L"
    by (rule sorted_merged_logs[OF d g])
  then have dL: "distinct ?L" by (rule strict_sorted_distinct)
  from d have "distinct (all_rows db)" by (simp add: distinct_map)
  with dL setL have "length ?L = length (all_rows db)"
    by (metis distinct_card)
  then have fuel: "length (merged_logs getTime db (?q\<lparr>q_cursor := None\<rparr>)) - 0
                   < Suc (length (all_rows db))"
    by (simp add: no_filter_cursor)
  from k have lim: "parseInt (or_default (q_limit ?q) ''50'') = Some k"
    by (intro no_filter_limit) simp
  from follow_cursor_from[OF d g u s k(1) lim start fuel]
  obtain pages where f: "follow_cursor (Suc (length (all_rows db))) getTime db ?q = Some pages"
    and cat: "concat (map logs pages) = ?L"
    and more: "map hasMore pages = replicate (length pages - 1) True @ [False]"
    by (auto simp: no_filter_cursor)
  from sorted have sk: "sorted_wrt key_after ?L"
    by (rule sorted_wrt_mono_rel[rotated]) (simp add: key_after_def)
  show ?thesis
  proof (intro exI conjI)
    show "follow_cursor (Suc (length (all_rows db))) getTime db ?q = Some pages" by (rule f)
    show "distinct (concat (map logs pages))" unfolding cat by (rule dL)
    show "set (concat (map logs pages)) = set (all_rows db)" unfolding cat by (rule setL)
    show "sorted_wrt key_after (concat (map logs pages))" unfolding cat by (rule sk)
    show "map hasMore pages = replicate (length pages - 1) True @ [False]" by (rule more)
  qed
qed

lemma paged_distinct: "distinct (map lr_timestamp (all_rows paged_db))"
  by code_simp

lemma paged_agrees: "date_agrees digits_getTime (map lr_timestamp (all_rows paged_db))"
  by code_simp

lemma paged_plain: "\<forall>r\<in>set (all_rows paged_db). CHR ''_'' \<notin> set (lr_timestamp r)"
  by code_simp

lemma paged_safe: "\<forall>r\<in>set (all_rows paged_db). \<bar>lr_id r\<bar> < 2 ^ 53"
  by code_simp

lemma pagination_complete_example:
  "\<exists>pages. follow_cursor (Suc (length (all_rows paged_db))) digits_getTime paged_db
               (no_filter (string_of_int 2)) = Some pages
           \<and> distinct (concat (map logs pages))
           \<and> set (concat (map logs pages)) = set (all_rows paged_db)
           \<and> sorted_wrt key_after (concat (map logs pages))
           \<and> map hasMore pages = replicate (length pages - 1) True @ [False]"
  using pagination_complete_when_date_agrees[OF paged_distinct paged_agrees paged_plain paged_safe,
      of 2]
  by simp

text \<open>
  Claim C2 fails on the code. The route sorts the merged rows by \<open>new Date(ts).getTime()\<close>,
  which reads a stored timestamp as a local time, and resumes after a cursor by
  comparing timestamps as text. In a zone with daylight saving the two orders differ:
  the store has three rows with pairwise distinct timestamps, of which \<open>02:30:00\<close> and
  \<open>03:30:00\<close> of 31 March 2024 are one instant to \<open>Date\<close>. With limit 1 the client gets
  two pages and the send row is on neither; with limit 2 the activity row 2 is on both
  pages and the order across the pages is not descending.
\<close>

theorem pagination_loses_row_in_dst_gap:
  "map (\<lambda>r. (lr_log_type r, lr_id r, lr_timestamp r)) (all_rows dst_db)
     = [(''send'', 1, ''2024-03-31 03:30:00''), (''activity'', 1, ''2024-03-31 01:30:00''),
        (''activity'', 2, ''2024-03-31 02:30:00'')]
   \<and> distinct (map lr_timestamp (all_rows dst_db))
   \<and> map_option (map (\<lambda>p. (map (\<lambda>r. (lr_log_type r, lr_id r)) (logs p), hasMore p, nextCursor p)))
        (follow_cursor 4 berlin_getTime dst_db (no_filter ''1''))
     = Some [([(''activity'', 2)], True, Some ''2024-03-31 02:30:00_2''),
             ([(''activity'', 1)], False, None)]
   \<and> map_option (map (\<lambda>p. (map (\<lambda>r. (lr_log_type r, lr_id r)) (logs p), hasMore p, nextCursor p)))
        (follow_cursor 4 berlin_getTime dst_db (no_filter ''2''))
     = Some [([(''activity'', 2), (''send'', 1)], True, Some ''2024-03-31 03:30:00_1''),
             ([(''activity'', 2), (''activity'', 1)], False, None)]"
  by code_simp

lemma paginate_hasMore:
  "hasMore (paginate limit xs) =
     (case limit of None \<Rightarrow> False | Some n \<Rightarrow> n < int (length xs))"
  by (cases limit) (auto simp: paginate_def slice0_def Let_def)

text \<open>
  Claim C3, as the code has it. \<open>hasMore\<close> is true exactly when the limit is a number
  and the merged, filtered list holds more rows than the limit. When it is true and the
  limit is positive, the page is the first \<open>limit\<close> rows of the merged list and
  \<open>nextCursor\<close> is the timestamp and id of the last row of the page, row \<open>limit\<close> of the
  merged list; row \<open>limit + 1\<close> is fetched to detect that more rows exist and is dropped.
\<close>

theorem next_cursor_is_last_row_returned:
  "hasMore (GET getTime db qry) =
     (case parseInt (or_default (q_limit qry) ''50'') of
        None \<Rightarrow> False
      | Some n \<Rightarrow> n < int (length (merged_logs getTime db qry)))
   \<and> (\<forall>n. parseInt (or_default (q_limit qry) ''50'') = Some n \<and> 0 < n
          \<and> n < int (length (merged_logs getTime db qry)) \<longrightarrow>
        logs (GET getTime db qry) = take (nat n) (merged_logs getTime db qry)
        \<and> nextCursor (GET getTime db qry)
            = Some (cursor_of (merged_logs getTime db qry ! (nat n - 1))))"
proof (intro conjI allI impI)
  show "hasMore (GET getTime db qry) =
     (case parseInt (or_default (q_limit qry) ''50'') of
        None \<Rightarrow> False
      | Some n \<Rightarrow> n < int (length (merged_logs getTime db qry)))"
    by (simp add: GET_def paginate_hasMore)
next
  fix n
  assume a: "parseInt (or_default (q_limit qry) ''50'') = Some n \<and> 0 < n
          \<and> n < int (length (merged_logs getTime db qry))"
  then have "GET getTime db qry = paginate (Some n) (merged_logs getTime db qry)"
    by (simp add: GET_def)
  with a paginate_positive[of n "merged_logs getTime db qry"]
  show "logs (GET getTime db qry) = take (nat n) (merged_logs getTime db qry)"
    and "nextCursor (GET getTime db qry)
            = Some (cursor_of (merged_logs getTime db qry ! (nat n - 1)))"
    by auto
qed

text \<open>
  With three rows and limit 1, \<open>nextCursor\<close> names the first row of the merged list
  (the row returned), not the second.
\<close>

theorem next_cursor_counterexample:
  "hasMore (GET digits_getTime paged_db (no_filter ''1''))
   \<and> nextCursor (GET digits_getTime paged_db (no_filter ''1''))
       \<noteq> Some (cursor_of (merged_logs digits_getTime paged_db (no_filter ''1'') ! 1))
   \<and> nextCursor (GET digits_getTime paged_db (no_filter ''1''))
       = Some (cursor_of (merged_logs digits_getTime paged_db (no_filter ''1'') ! 0))"
  by code_simp

lemma paged_limit: "parseInt (or_default (q_limit (no_filter ''2'')) ''50'') = Some 2"
  by code_simp

lemma paged_merged: "map (\<lambda>r. (lr_log_type r, lr_id r)) (merged_logs digits_getTime paged_db (no_filter ''2''))
   = [(''send'', 2), (''activity'', 1), (''send'', 1)]"
  by code_simp

theorem next_cursor_is_last_row_returned_witness:
  "hasMore (GET digits_getTime paged_db (no_filter ''2''))
   \<and> logs (GET digits_getTime paged_db (no_filter ''2''))
       = take 2 (merged_logs digits_getTime paged_db (no_filter ''2''))
   \<and> nextCursor (GET digits_getTime paged_db (no_filter ''2''))
       = Some (cursor_of (merged_logs digits_getTime paged_db (no_filter ''2'') ! 1))
   \<and> cursor_of (merged_logs digits_getTime paged_db (no_filter ''2'') ! 1)
       = ''2024-01-15 09:02:00_1''"
proof -
  note t = next_cursor_is_last_row_returned[of digits_getTime paged_db "no_filter ''2''"]
  from arg_cong[OF paged_merged, of length]
  have len: "length (merged_logs digits_getTime paged_db (no_filter ''2'')) = 3"
    by simp
  from t[THEN conjunct1] have a: "hasMore (GET digits_getTime paged_db (no_filter ''2''))"
    by (simp only: paged_limit len option.case)
  have h: "parseInt (or_default (q_limit (no_filter ''2'')) ''50'') = Some 2 \<and> (0::int) < 2
          \<and> 2 < int (length (merged_logs digits_getTime paged_db (no_filter ''2'')))"
    by (simp only: paged_limit len) simp
  from t[THEN conjunct2, rule_format, OF h]
  have b: "logs (GET digits_getTime paged_db (no_filter ''2''))
       = take 2 (merged_logs digits_getTime paged_db (no_filter ''2''))"
    and c: "nextCursor (GET digits_getTime paged_db (no_filter ''2''))
       = Some (cursor_of (merged_logs digits_getTime paged_db (no_filter ''2'') ! 1))"
    by simp_all
  have e: "cursor_of (merged_logs digits_getTime paged_db (no_filter ''2'') ! 1)
       = ''2024-01-15 09:02:00_1''"
    by code_simp
  from a b c e show ?thesis by (intro conjI)
qed

end
